theory Spec2Isabelle
  imports Main
begin

section \<open>Python values and dictionaries\<close>

text \<open>
  The values that \<^verbatim>\<open>src/slims/step.py\<close> builds and passes around: \<^verbatim>\<open>None\<close>, booleans,
  integers, strings, lists and dictionaries with string keys. A dictionary is the list of
  its items in insertion order, as CPython keeps them; the keys of a dictionary that the
  code builds are distinct.
\<close>

datatype pyval =
    PNone
  | PBool bool
  | PInt int
  | PStr string
  | PList "pyval list"
  | PDict "(string \<times> pyval) list"

type_synonym dict = "(string \<times> pyval) list"

text \<open>\<^verbatim>\<open>d[k] = v\<close>: an existing key keeps its place and gets the new value, a new key goes last.\<close>

fun dict_set :: "dict \<Rightarrow> string \<Rightarrow> pyval \<Rightarrow> dict" where
  "dict_set [] k v = [(k, v)]"
| "dict_set ((k', v') # d) k v = (if k' = k then (k, v) # d else (k', v') # dict_set d k v)"

text \<open>\<^verbatim>\<open>d.update(other)\<close>: the items of \<^verbatim>\<open>other\<close> are stored one after the other.\<close>

fun dict_update :: "dict \<Rightarrow> dict \<Rightarrow> dict" where
  "dict_update d [] = d"
| "dict_update d ((k, v) # other) = dict_update (dict_set d k v) other"

text \<open>Reading a value back: its keys, and \<^verbatim>\<open>d.get(k)\<close> (\<open>None\<close> when the key is absent
  or the value is no dictionary).\<close>

fun keys :: "pyval \<Rightarrow> string list" where
  "keys (PDict d) = map fst d"
| "keys _ = []"

fun lookup :: "pyval \<Rightarrow> string \<Rightarrow> pyval option" where
  "lookup (PDict d) k = map_of d k"
| "lookup _ k = None"

fun is_dict :: "pyval \<Rightarrow> bool" where
  "is_dict (PDict d) = True"
| "is_dict _ = False"

section \<open>Exceptions and outcomes\<close>

text \<open>
  An exception is an instance of \<^verbatim>\<open>StepExecutionException\<close> (line 79, a subclass of
  \<^verbatim>\<open>Exception\<close>) with its message, another instance of \<^verbatim>\<open>Exception\<close>, or an exception
  outside \<^verbatim>\<open>Exception\<close> (\<^verbatim>\<open>KeyboardInterrupt\<close>, \<^verbatim>\<open>SystemExit\<close>, \<^verbatim>\<open>GeneratorExit\<close>); for
  the last two kinds the strings are the class name and the message. The clause
  \<^verbatim>\<open>except Exception\<close> catches exactly the first two kinds.
\<close>

datatype exn =
    StepExecutionException_msg string
  | OtherException string string
  | NonException string string

text \<open>
  \<^verbatim>\<open>raise StepExecutionException\<close> (lines 60 and 76) raises an instance made without
  arguments: its message is empty.
\<close>

abbreviation StepExecutionException :: exn where
  "StepExecutionException \<equiv> StepExecutionException_msg []"

fun is_Exception :: "exn \<Rightarrow> bool" where
  "is_Exception (StepExecutionException_msg m) = True"
| "is_Exception (OtherException c m) = True"
| "is_Exception (NonException c m) = False"

datatype 'v outcome = Returned 'v | Raised exn

section \<open>The class Step\<close>

text \<open>
  Lines 10 to 29. The action is a callable that takes the run context; here it is a
  function on the state \<open>'s\<close> of the run (and of whatever else it touches) that returns
  a value or raises. The flags are the booleans that the docstring asks for.
\<close>

record ('s, 'v) Step =
  action :: "'s \<Rightarrow> 'v outcome \<times> 's"
  name :: pyval
  hidden :: bool
  input_params :: "pyval list"
  output_params :: "pyval list"
  async :: bool

text \<open>\<^verbatim>\<open>Step.to_dict\<close>, lines 31 to 45.\<close>

definition to_dict :: "('s, 'v) Step \<Rightarrow> pyval \<Rightarrow> pyval" where
  "to_dict self route_id = PDict [
     (''hidden'', PBool (hidden self)),
     (''name'', name self),
     (''input'', PDict [(''parameters'', PList (input_params self))]),
     (''process'', PDict [
        (''asynchronous'', PBool (async self)),
        (''route'', route_id)]),
     (''output'', PDict [(''parameters'', PList (output_params self))])]"

section \<open>Calls with keyword arguments\<close>

text \<open>
  The builders fail in two ways: a call whose arguments do not fit the signature raises
  \<^verbatim>\<open>TypeError\<close>, a list index out of range raises \<^verbatim>\<open>IndexError\<close>.
\<close>

datatype py_error = TypeError | IndexError

text \<open>
  A function \<^verbatim>\<open>def f(p1, ..., pn, **kwargs)\<close> called with values for \<open>p1 \<dots> pn\<close> and the
  further keyword arguments \<open>kw\<close>: Python raises \<^verbatim>\<open>TypeError\<close> (multiple values for an
  argument) when a keyword names one of the parameters already given, and (repeated
  keyword) when a keyword comes twice; otherwise \<^verbatim>\<open>kwargs\<close> is \<open>kw\<close>.
\<close>

definition bind_keywords :: "string list \<Rightarrow> dict \<Rightarrow> py_error + dict" where
  "bind_keywords params kw =
     (if distinct (map fst kw) \<and> set (map fst kw) \<inter> set params = {} then Inr kw
      else Inl TypeError)"

text \<open>A parameter with the default \<^verbatim>\<open>None\<close>: \<open>None\<close> here when the caller omits it.\<close>

fun default_None :: "pyval option \<Rightarrow> pyval" where
  "default_None None = PNone"
| "default_None (Some v) = v"

text \<open>\<^verbatim>\<open>xs[i]\<close> on a list, for an index that is not negative.\<close>

definition getitem :: "pyval list \<Rightarrow> nat \<Rightarrow> py_error + pyval" where
  "getitem xs i = (if i < length xs then Inr (xs ! i) else Inl IndexError)"

section \<open>The simple input builders\<close>

text \<open>\<^verbatim>\<open>_simple_input(name, label, type, **kwargs)\<close>, lines 83 to 86.\<close>

definition simple_input :: "pyval \<Rightarrow> pyval \<Rightarrow> pyval \<Rightarrow> dict \<Rightarrow> py_error + pyval" where
  "simple_input nm lbl ty kw =
     (case bind_keywords [''name'', ''label'', ''type''] kw of
        Inl e \<Rightarrow> Inl e
      | Inr kwargs \<Rightarrow>
          Inr (PDict (dict_update [(''name'', nm), (''label'', lbl), (''type'', ty)] kwargs)))"

text \<open>
  The ten public builders (lines 89 to 100, 233 to 342 and 364 to 375), each
  \<^verbatim>\<open>def f(name, label, **kwargs)\<close> that returns \<^verbatim>\<open>_simple_input(name, label, TAG, **kwargs)\<close>.
\<close>

definition text_input :: "pyval \<Rightarrow> pyval \<Rightarrow> dict \<Rightarrow> py_error + pyval" where
  "text_input nm lbl kw =
     (case bind_keywords [''name'', ''label''] kw of
        Inl e \<Rightarrow> Inl e
      | Inr kwargs \<Rightarrow> simple_input nm lbl (PStr ''STRING'') kwargs)"

definition date_input :: "pyval \<Rightarrow> pyval \<Rightarrow> dict \<Rightarrow> py_error + pyval" where
  "date_input nm lbl kw =
     (case bind_keywords [''name'', ''label''] kw of
        Inl e \<Rightarrow> Inl e
      | Inr kwargs \<Rightarrow> simple_input nm lbl (PStr ''DATE'') kwargs)"

definition date_time_input :: "pyval \<Rightarrow> pyval \<Rightarrow> dict \<Rightarrow> py_error + pyval" where
  "date_time_input nm lbl kw =
     (case bind_keywords [''name'', ''label''] kw of
        Inl e \<Rightarrow> Inl e
      | Inr kwargs \<Rightarrow> simple_input nm lbl (PStr ''DATETIME'') kwargs)"

definition time_input :: "pyval \<Rightarrow> pyval \<Rightarrow> dict \<Rightarrow> py_error + pyval" where
  "time_input nm lbl kw =
     (case bind_keywords [''name'', ''label''] kw of
        Inl e \<Rightarrow> Inl e
      | Inr kwargs \<Rightarrow> simple_input nm lbl (PStr ''TIME'') kwargs)"

definition boolean_input :: "pyval \<Rightarrow> pyval \<Rightarrow> dict \<Rightarrow> py_error + pyval" where
  "boolean_input nm lbl kw =
     (case bind_keywords [''name'', ''label''] kw of
        Inl e \<Rightarrow> Inl e
      | Inr kwargs \<Rightarrow> simple_input nm lbl (PStr ''BOOLEAN'') kwargs)"

definition rich_text_input :: "pyval \<Rightarrow> pyval \<Rightarrow> dict \<Rightarrow> py_error + pyval" where
  "rich_text_input nm lbl kw =
     (case bind_keywords [''name'', ''label''] kw of
        Inl e \<Rightarrow> Inl e
      | Inr kwargs \<Rightarrow> simple_input nm lbl (PStr ''TEXT'') kwargs)"

definition integer_input :: "pyval \<Rightarrow> pyval \<Rightarrow> dict \<Rightarrow> py_error + pyval" where
  "integer_input nm lbl kw =
     (case bind_keywords [''name'', ''label''] kw of
        Inl e \<Rightarrow> Inl e
      | Inr kwargs \<Rightarrow> simple_input nm lbl (PStr ''INTEGER'') kwargs)"

definition float_input :: "pyval \<Rightarrow> pyval \<Rightarrow> dict \<Rightarrow> py_error + pyval" where
  "float_input nm lbl kw =
     (case bind_keywords [''name'', ''label''] kw of
        Inl e \<Rightarrow> Inl e
      | Inr kwargs \<Rightarrow> simple_input nm lbl (PStr ''FLOAT'') kwargs)"

definition password_input :: "pyval \<Rightarrow> pyval \<Rightarrow> dict \<Rightarrow> py_error + pyval" where
  "password_input nm lbl kw =
     (case bind_keywords [''name'', ''label''] kw of
        Inl e \<Rightarrow> Inl e
      | Inr kwargs \<Rightarrow> simple_input nm lbl (PStr ''PASSWORD'') kwargs)"

definition file_input :: "pyval \<Rightarrow> pyval \<Rightarrow> dict \<Rightarrow> py_error + pyval" where
  "file_input nm lbl kw =
     (case bind_keywords [''name'', ''label''] kw of
        Inl e \<Rightarrow> Inl e
      | Inr kwargs \<Rightarrow> simple_input nm lbl (PStr ''FILE'') kwargs)"

section \<open>The choice builders over a field list\<close>

text \<open>
  The loop of \<^verbatim>\<open>_choice_with_field_list_input\<close>, lines 138 to 148: \<open>todo\<close> is what the
  \<^verbatim>\<open>for\<close> has still to visit, \<open>i\<close> the counter and \<open>entries\<close> the list built so far.
  Both subscripts can raise.
\<close>

fun field_list_loop ::
  "pyval list \<Rightarrow> pyval list option \<Rightarrow> pyval list \<Rightarrow> nat \<Rightarrow> pyval list \<Rightarrow> py_error + pyval list"
where
  "field_list_loop fieldelements fieldtype [] i entries = Inr entries"
| "field_list_loop fieldelements fieldtype (fieldelement # todo) i entries =
     (case (case fieldtype of Some types \<Rightarrow> getitem types i | None \<Rightarrow> Inr PNone) of
        Inl e \<Rightarrow> Inl e
      | Inr t \<Rightarrow>
          (case getitem fieldelements i of
             Inl e \<Rightarrow> Inl e
           | Inr f \<Rightarrow>
               field_list_loop fieldelements fieldtype todo (i + 1)
                 (entries @ [PDict (dict_set (dict_set [] ''type'' t) ''field'' f)])))"

text \<open>\<^verbatim>\<open>_choice_with_field_list_input\<close>, lines 137 to 157.\<close>

definition choice_with_field_list_input ::
  "pyval \<Rightarrow> pyval \<Rightarrow> pyval \<Rightarrow> pyval list \<Rightarrow> pyval list option \<Rightarrow> dict \<Rightarrow> py_error + pyval"
where
  "choice_with_field_list_input nm lbl datatype fieldelements fieldtype kw =
     (case bind_keywords [''name'', ''label'', ''datatype'', ''fieldelements'', ''fieldtype''] kw of
        Inl e \<Rightarrow> Inl e
      | Inr kwargs \<Rightarrow>
          (case field_list_loop fieldelements fieldtype fieldelements 0 [] of
             Inl e \<Rightarrow> Inl e
           | Inr entries \<Rightarrow>
               Inr (PDict (dict_update
                 [(''name'', nm), (''label'', lbl), (''type'', datatype),
                  (''fieldList'', PDict [(''entries'', PList entries)])] kwargs))))"

text \<open>Lines 103 to 118 and 121 to 134.\<close>

definition single_choice_with_field_list_input ::
  "pyval \<Rightarrow> pyval \<Rightarrow> pyval list \<Rightarrow> pyval list option \<Rightarrow> dict \<Rightarrow> py_error + pyval"
where
  "single_choice_with_field_list_input nm lbl fieldelements fieldtype kw =
     (case bind_keywords [''name'', ''label'', ''fieldelements'', ''fieldtype''] kw of
        Inl e \<Rightarrow> Inl e
      | Inr kwargs \<Rightarrow>
          choice_with_field_list_input nm lbl (PStr ''SINGLE_CHOICE'') fieldelements fieldtype
            kwargs)"

definition multiple_choice_with_field_list_input ::
  "pyval \<Rightarrow> pyval \<Rightarrow> pyval list \<Rightarrow> pyval list option \<Rightarrow> dict \<Rightarrow> py_error + pyval"
where
  "multiple_choice_with_field_list_input nm lbl fieldelements fieldtype kw =
     (case bind_keywords [''name'', ''label'', ''fieldelements'', ''fieldtype''] kw of
        Inl e \<Rightarrow> Inl e
      | Inr kwargs \<Rightarrow>
          choice_with_field_list_input nm lbl (PStr ''MULTIPLE_CHOICE'') fieldelements fieldtype
            kwargs)"

section \<open>The choice builders over a value map\<close>

text \<open>\<^verbatim>\<open>_choice_with_value_map_input\<close>, lines 209 to 230.\<close>

definition choice_with_value_map_input ::
  "pyval \<Rightarrow> pyval \<Rightarrow> pyval \<Rightarrow> pyval \<Rightarrow> pyval \<Rightarrow> pyval \<Rightarrow> pyval \<Rightarrow> dict \<Rightarrow> py_error + pyval"
where
  "choice_with_value_map_input nm lbl datatype table filtered reference
       fixed_choice_customer_field kw =
     (case bind_keywords [''name'', ''label'', ''datatype'', ''table'', ''filtered'',
             ''reference'', ''fixed_choice_customer_field''] kw of
        Inl e \<Rightarrow> Inl e
      | Inr kwargs \<Rightarrow>
          Inr (PDict (dict_update
            [(''name'', nm), (''label'', lbl), (''type'', datatype),
             (''valueMap'', PDict [(''filter'', filtered), (''reference'', reference),
                (''table'', table), (''fixedChoiceCustomField'', fixed_choice_customer_field)])]
            kwargs)))"

text \<open>
  A call of \<^verbatim>\<open>_choice_with_value_map_input\<close> with positional arguments only, as lines 181
  and 205 make it: the function has seven positional parameters, none with a default, so
  any other number of arguments raises \<^verbatim>\<open>TypeError\<close>.
\<close>

fun call_choice_with_value_map_input :: "pyval list \<Rightarrow> py_error + pyval" where
  "call_choice_with_value_map_input [a1, a2, a3, a4, a5, a6, a7] =
     choice_with_value_map_input a1 a2 a3 a4 a5 a6 a7 []"
| "call_choice_with_value_map_input args = Inl TypeError"

text \<open>
  Lines 160 to 182 and 185 to 206. The last argument of the inner call is written
  \<^verbatim>\<open>*kwargs\<close>: it unpacks the keys of the dictionary as further positional arguments.
\<close>

definition single_choice_with_value_map_input ::
  "pyval \<Rightarrow> pyval \<Rightarrow> pyval option \<Rightarrow> pyval option \<Rightarrow> pyval option \<Rightarrow> pyval option \<Rightarrow> dict
     \<Rightarrow> py_error + pyval"
where
  "single_choice_with_value_map_input nm lbl table filtered reference
       fixed_choice_customer_field kw =
     (case bind_keywords [''name'', ''label'', ''table'', ''filtered'', ''reference'',
             ''fixed_choice_customer_field''] kw of
        Inl e \<Rightarrow> Inl e
      | Inr kwargs \<Rightarrow>
          call_choice_with_value_map_input
            ([nm, lbl, PStr ''SINGLE_CHOICE'', default_None table, default_None filtered,
              default_None reference, default_None fixed_choice_customer_field]
             @ map PStr (map fst kwargs)))"

definition multiple_choice_with_value_map_input ::
  "pyval \<Rightarrow> pyval \<Rightarrow> pyval option \<Rightarrow> pyval option \<Rightarrow> pyval option \<Rightarrow> pyval option \<Rightarrow> dict
     \<Rightarrow> py_error + pyval"
where
  "multiple_choice_with_value_map_input nm lbl table filtered reference
       fixed_choice_customer_field kw =
     (case bind_keywords [''name'', ''label'', ''table'', ''filtered'', ''reference'',
             ''fixed_choice_customer_field''] kw of
        Inl e \<Rightarrow> Inl e
      | Inr kwargs \<Rightarrow>
          call_choice_with_value_map_input
            ([nm, lbl, PStr ''MULTIPLE_CHOICE'', default_None table, default_None filtered,
              default_None reference, default_None fixed_choice_customer_field]
             @ map PStr (map fst kwargs)))"

section \<open>The table input and the outputs\<close>

text \<open>Lines 345 to 359, 378 to 383 and 386 to 395.\<close>

definition table_input :: "pyval \<Rightarrow> pyval \<Rightarrow> pyval \<Rightarrow> dict \<Rightarrow> py_error + pyval" where
  "table_input nm lbl subparameters kw =
     (case bind_keywords [''name'', ''label'', ''subparameters''] kw of
        Inl e \<Rightarrow> Inl e
      | Inr kwargs \<Rightarrow>
          Inr (PDict (dict_update
            [(''name'', nm), (''label'', lbl), (''type'', PStr ''TABLE''),
             (''subParameters'', subparameters)] kwargs)))"

definition file_output :: pyval where
  "file_output = PDict [(''name'', PStr ''file''), (''type'', PStr ''FILE'')]"

definition value_map_output :: "pyval \<Rightarrow> pyval \<Rightarrow> pyval" where
  "value_map_output nm datatype =
     PDict [(''name'', nm), (''datatype'', datatype), (''type'', PStr ''VALUEMAP'')]"

section \<open>The run and the calls that Step makes on it\<close>

text \<open>
  Modelled from the spec: \<^verbatim>\<open>Status\<close> is imported from \<^verbatim>\<open>flowrun.py\<close>, which is not among the
  source files; the spec gives it as an enumeration of four states, of which the code
  names \<^verbatim>\<open>DONE\<close> and \<^verbatim>\<open>FAILED\<close>.
\<close>

datatype Status = PENDING | RUNNING | DONE | FAILED

text \<open>
  The run context \<^verbatim>\<open>flow_run\<close> is an object that the caller supplies. Step uses three of
  its methods. Each works on the state \<open>'s\<close> of the run and returns normally (\<open>None\<close>)
  or raises (\<open>Some e\<close>); nothing is assumed about what it does to the state.
\<close>

record 's flow_run =
  check_user_secret :: "'s \<Rightarrow> exn option \<times> 's"
  log :: "string \<Rightarrow> 's \<Rightarrow> exn option \<times> 's"
  update_status :: "Status \<Rightarrow> 's \<Rightarrow> exn option \<times> 's"

text \<open>
  What Step does to the world outside is the sequence of calls it makes: on the run, on
  the action, on the module's logger (\<^verbatim>\<open>logger.info\<close> with its format string and argument)
  and on \<^verbatim>\<open>threading\<close>. The model threads the state of the run and keeps this sequence.
\<close>

datatype event =
    CheckUserSecret
  | Log string
  | UpdateStatus Status
  | Action
  | LoggerInfo string pyval
  | ThreadStart

type_synonym 's world = "'s \<times> event list"

definition call_check_user_secret :: "'s flow_run \<Rightarrow> 's world \<Rightarrow> exn option \<times> 's world" where
  "call_check_user_secret flow_run w =
     (case check_user_secret flow_run (fst w) of
        (r, s') \<Rightarrow> (r, (s', snd w @ [CheckUserSecret])))"

definition call_log :: "'s flow_run \<Rightarrow> string \<Rightarrow> 's world \<Rightarrow> exn option \<times> 's world" where
  "call_log flow_run text w =
     (case log flow_run text (fst w) of (r, s') \<Rightarrow> (r, (s', snd w @ [Log text])))"

definition call_update_status :: "'s flow_run \<Rightarrow> Status \<Rightarrow> 's world \<Rightarrow> exn option \<times> 's world" where
  "call_update_status flow_run status w =
     (case update_status flow_run status (fst w) of
        (r, s') \<Rightarrow> (r, (s', snd w @ [UpdateStatus status])))"

definition call_action :: "('s, 'v) Step \<Rightarrow> 's world \<Rightarrow> 'v outcome \<times> 's world" where
  "call_action self w =
     (case action self (fst w) of (r, s') \<Rightarrow> (r, (s', snd w @ [Action])))"

text \<open>\<^verbatim>\<open>logger.info(format, argument)\<close> does not touch the run and does not raise.\<close>

definition logger_info :: "string \<Rightarrow> pyval \<Rightarrow> 's world \<Rightarrow> 's world" where
  "logger_info format argument w = (fst w, snd w @ [LoggerInfo format argument])"

text \<open>
  \<^verbatim>\<open>traceback.format_exc()\<close> inside a handler: the header line of a traceback and the line
  that names the exception (the lines for the stack frames in between are left out).
\<close>

fun format_exception_only :: "exn \<Rightarrow> string" where
  "format_exception_only (StepExecutionException_msg m) =
     (if m = [] then ''StepExecutionException'' else ''StepExecutionException: '' @ m)"
| "format_exception_only (OtherException c m) = (if m = [] then c else c @ '': '' @ m)"
| "format_exception_only (NonException c m) = (if m = [] then c else c @ '': '' @ m)"

definition format_exc :: "exn \<Rightarrow> string" where
  "format_exc e =
     ''Traceback (most recent call last):'' @ [CHR 0x0A] @ format_exception_only e @ [CHR 0x0A]"

section \<open>Step.execute\<close>

text \<open>
  The two handlers, lines 56 to 60 and 72 to 76, are the same four statements. An
  exception that \<^verbatim>\<open>except Exception\<close> does not catch goes on unchanged; so does one that
  \<^verbatim>\<open>flow_run.log\<close> or \<^verbatim>\<open>flow_run.update_status\<close> raises inside the handler.
\<close>

definition except_Exception ::
  "('s, 'v) Step \<Rightarrow> 's flow_run \<Rightarrow> exn \<Rightarrow> 's world \<Rightarrow> 'a outcome \<times> 's world"
where
  "except_Exception self flow_run e w =
     (if is_Exception e then
        (case call_log flow_run (format_exc e) w of
           (Some e1, w1) \<Rightarrow> (Raised e1, w1)
         | (None, w1) \<Rightarrow>
             (case call_update_status flow_run FAILED w1 of
                (Some e2, w2) \<Rightarrow> (Raised e2, w2)
              | (None, w2) \<Rightarrow>
                  (Raised StepExecutionException,
                   logger_info ''Failed running step %s'' (name self) w2)))
      else (Raised e, w))"

text \<open>\<^verbatim>\<open>Step._execute_inner\<close>, lines 66 to 76.\<close>

definition execute_inner :: "('s, 'v) Step \<Rightarrow> 's flow_run \<Rightarrow> 's world \<Rightarrow> 'v outcome \<times> 's world" where
  "execute_inner self flow_run w =
     (case call_action self w of
        (Raised e, w1) \<Rightarrow> except_Exception self flow_run e w1
      | (Returned v, w1) \<Rightarrow>
          (case call_update_status flow_run DONE w1 of
             (Some e, w2) \<Rightarrow> except_Exception self flow_run e w2
           | (None, w2) \<Rightarrow> (Returned v, logger_info ''Done running step %s'' (name self) w2)))"

text \<open>
  \<^verbatim>\<open>Step._execute_async\<close>, lines 62 to 64: a thread is started on \<^verbatim>\<open>_execute_inner\<close> and
  the method returns \<^verbatim>\<open>None\<close>. What the thread does, and when, is outside this model.
\<close>

definition execute_async :: "('s, 'v) Step \<Rightarrow> 's flow_run \<Rightarrow> 's world \<Rightarrow> unit outcome \<times> 's world" where
  "execute_async self flow_run w = (Returned (), (fst w, snd w @ [ThreadStart]))"

text \<open>
  \<^verbatim>\<open>Step.execute\<close>, lines 47 to 60. The value returned is \<open>Some v\<close> for the value \<open>v\<close> of
  the action and \<open>None\<close> for the \<^verbatim>\<open>None\<close> of the asynchronous branch.
\<close>

definition execute ::
  "('s, 'v) Step \<Rightarrow> 's flow_run \<Rightarrow> 's world \<Rightarrow> 'v option outcome \<times> 's world"
where
  "execute self flow_run w =
     (case call_check_user_secret flow_run w of
        (Some e, w1) \<Rightarrow> except_Exception self flow_run e w1
      | (None, w1) \<Rightarrow>
          (if async self then
             (case execute_async self flow_run
                     (logger_info ''Starting to run step %s asynchronously'' (name self) w1) of
                (Raised e, w2) \<Rightarrow> except_Exception self flow_run e w2
              | (Returned u, w2) \<Rightarrow> (Returned None, w2))
           else
             (case execute_inner self flow_run
                     (logger_info ''Starting to run step %s synchronously'' (name self) w1) of
                (Raised e, w2) \<Rightarrow> except_Exception self flow_run e w2
              | (Returned v, w2) \<Rightarrow> (Returned (Some v), w2))))"

text \<open>Reading a sequence of calls: the statuses given to \<^verbatim>\<open>update_status\<close> and the texts
  given to \<^verbatim>\<open>log\<close>, in order.\<close>

fun status_updates :: "event list \<Rightarrow> Status list" where
  "status_updates [] = []"
| "status_updates (UpdateStatus status # evs) = status # status_updates evs"
| "status_updates (ev # evs) = status_updates evs"

fun logged_texts :: "event list \<Rightarrow> string list" where
  "logged_texts [] = []"
| "logged_texts (Log text # evs) = text # logged_texts evs"
| "logged_texts (ev # evs) = logged_texts evs"

text \<open>
  Two runs, a state and a step for the examples below (they are no part of the source).
  The first run keeps its status and its log in memory and checks a secret flag; the
  second has lost its server, so that \<^verbatim>\<open>log\<close> and \<^verbatim>\<open>update_status\<close> raise.
\<close>

record memory =
  secret_ok :: bool
  status :: "Status option"
  log_lines :: "string list"

definition memory_run :: "memory flow_run" where
  "memory_run = \<lparr>
     check_user_secret = (\<lambda>s. (if secret_ok s then None
        else Some (OtherException ''Exception'' ''Secret not valid''), s)),
     log = (\<lambda>text s. (None, s\<lparr>log_lines := log_lines s @ [text]\<rparr>)),
     update_status = (\<lambda>st s. (None, s\<lparr>status := Some st\<rparr>))\<rparr>"

definition offline_run :: "memory flow_run" where
  "offline_run = \<lparr>
     check_user_secret = (\<lambda>s. (None, s)),
     log = (\<lambda>text s. (Some (OtherException ''ConnectionError'' ''log''), s)),
     update_status = (\<lambda>st s. (Some (OtherException ''ConnectionError'' ''status''), s))\<rparr>"

definition fresh :: memory where
  "fresh = \<lparr>secret_ok = True, status = None, log_lines = []\<rparr>"

definition step_of :: "(memory \<Rightarrow> int outcome \<times> memory) \<Rightarrow> bool \<Rightarrow> (memory, int) Step" where
  "step_of act asynchronous = \<lparr>action = act, name = PStr ''load'', hidden = False,
     input_params = [], output_params = [], async = asynchronous\<rparr>"

section \<open>Reference notions for the properties\<close>

text \<open>
  What the claim asks of a result: a dictionary that holds name, label and the fixed type
  tag, with the extra options merged over them (\<open>++\<close> lets the right-hand map win).
\<close>

definition descriptor_of :: "string \<Rightarrow> pyval \<Rightarrow> pyval \<Rightarrow> dict \<Rightarrow> py_error + pyval \<Rightarrow> bool" where
  "descriptor_of tag nm lbl kw res =
     (\<exists>d. res = Inr (PDict d) \<and> distinct (map fst d)
        \<and> map_of d = [''name'' \<mapsto> nm, ''label'' \<mapsto> lbl, ''type'' \<mapsto> PStr tag] ++ map_of kw)"

text \<open>
  The entries the claim describes: one per index of \<open>fieldelements\<close>, holding the type at
  that index (\<open>None\<close> without a \<open>fieldtype\<close>) and the element at that index.
\<close>

definition paired_entries :: "pyval list \<Rightarrow> pyval list option \<Rightarrow> pyval list" where
  "paired_entries fieldelements fieldtype =
     map (\<lambda>i. PDict [(''type'', (case fieldtype of None \<Rightarrow> PNone | Some types \<Rightarrow> types ! i)),
                      (''field'', fieldelements ! i)])
       [0..<length fieldelements]"

section \<open>Dictionary updates\<close>

lemma map_of_dict_set: "map_of (dict_set d k v) = (map_of d)(k \<mapsto> v)"
  by (induction d) (auto simp: fun_upd_twist)

lemma keys_dict_set: "set (map fst (dict_set d k v)) = insert k (set (map fst d))"
proof (induction d)
  case Nil
  then show ?case by simp
next
  case (Cons p d)
  obtain k' v' where p: "p = (k', v')" by (cases p)
  with Cons show ?case by (cases "k' = k") auto
qed

lemma distinct_dict_set: "distinct (map fst d) \<Longrightarrow> distinct (map fst (dict_set d k v))"
proof (induction d)
  case Nil
  then show ?case by simp
next
  case (Cons p d)
  obtain k' v' where p: "p = (k', v')" by (cases p)
  show ?case
  proof (cases "k' = k")
    case True
    with Cons.prems p show ?thesis by simp
  next
    case False
    have "k' \<notin> set (map fst (dict_set d k v))"
      using Cons.prems p False by (simp only: keys_dict_set) simp
    with Cons p False show ?thesis by simp
  qed
qed

lemma map_of_dict_update:
  "distinct (map fst kw) \<Longrightarrow> map_of (dict_update d kw) = map_of d ++ map_of kw"
proof (induction kw arbitrary: d)
  case Nil
  then show ?case by simp
next
  case (Cons p kw)
  obtain k v where p: "p = (k, v)" by (cases p)
  from Cons.prems p have k: "map_of kw k = None" and d: "distinct (map fst kw)"
    by (auto simp: map_of_eq_None_iff)
  have "map_of (dict_update d (p # kw)) = (map_of d)(k \<mapsto> v) ++ map_of kw"
    by (simp only: p dict_update.simps Cons.IH [OF d] map_of_dict_set)
  also have "\<dots> = map_of d ++ map_of (p # kw)"
  proof (rule ext)
    fix x
    show "((map_of d)(k \<mapsto> v) ++ map_of kw) x = (map_of d ++ map_of (p # kw)) x"
      using k p by (cases "map_of kw x") (auto simp: map_add_def)
  qed
  finally show ?case .
qed

lemma keys_dict_update:
  "set (map fst (dict_update d kw)) = set (map fst d) \<union> set (map fst kw)"
proof (induction kw arbitrary: d)
  case Nil
  then show ?case by simp
next
  case (Cons p kw)
  obtain k v where p: "p = (k, v)" by (cases p)
  show ?case by (simp only: p dict_update.simps Cons.IH keys_dict_set) auto
qed

lemma distinct_dict_update:
  "distinct (map fst d) \<Longrightarrow> distinct (map fst (dict_update d kw))"
proof (induction kw arbitrary: d)
  case Nil
  then show ?case by simp
next
  case (Cons p kw)
  obtain k v where p: "p = (k, v)" by (cases p)
  show ?case using Cons.prems by (simp only: p dict_update.simps) (rule Cons.IH, rule distinct_dict_set)
qed

lemma bind_keywords_ok:
  "distinct (map fst kw) \<Longrightarrow> set (map fst kw) \<inter> set params = {}
   \<Longrightarrow> bind_keywords params kw = Inr kw"
  by (simp add: bind_keywords_def)

lemma bind_keywords_clash:
  "set (map fst kw) \<inter> set params \<noteq> {} \<Longrightarrow> bind_keywords params kw = Inl TypeError"
  by (simp add: bind_keywords_def)

lemma disjoint_subset: "A \<inter> B = {} \<Longrightarrow> C \<subseteq> B \<Longrightarrow> A \<inter> C = {}"
  by blast

lemma disjoint_not_member: "A \<inter> B = {} \<Longrightarrow> x \<in> B \<Longrightarrow> x \<notin> A"
  by blast

section \<open>Properties of the simple input builders\<close>

lemma simple_input_ok:
  assumes "distinct (map fst kw)"
    and "set (map fst kw) \<inter> {''name'', ''label'', ''type''} = {}"
  shows "descriptor_of tag nm lbl kw (simple_input nm lbl (PStr tag) kw)"
proof -
  let ?fixed = "[(''name'', nm), (''label'', lbl), (''type'', PStr tag)]"
  have b: "bind_keywords [''name'', ''label'', ''type''] kw = Inr kw"
    using assms by (intro bind_keywords_ok) simp_all
  have m: "map_of (dict_update ?fixed kw) = map_of ?fixed ++ map_of kw"
    using assms(1) by (rule map_of_dict_update)
  have f: "map_of ?fixed = [''name'' \<mapsto> nm, ''label'' \<mapsto> lbl, ''type'' \<mapsto> PStr tag]"
    by (rule ext) simp
  have d: "distinct (map fst (dict_update ?fixed kw))"
    by (rule distinct_dict_update) simp
  show ?thesis
    unfolding descriptor_of_def simple_input_def b
    using m d by (simp only: f sum.case) blast
qed

lemma scalar_ok:
  assumes "distinct (map fst kw)"
    and "set (map fst kw) \<inter> {''name'', ''label'', ''type''} = {}"
  shows "(case bind_keywords [''name'', ''label''] kw of Inl e \<Rightarrow> Inl e
          | Inr kwargs \<Rightarrow> simple_input nm lbl (PStr tag) kwargs)
         = simple_input nm lbl (PStr tag) kw"
    and "descriptor_of tag nm lbl kw (simple_input nm lbl (PStr tag) kw)"
proof -
  have "bind_keywords [''name'', ''label''] kw = Inr kw"
    using assms by (intro bind_keywords_ok) auto
  then show "(case bind_keywords [''name'', ''label''] kw of Inl e \<Rightarrow> Inl e
          | Inr kwargs \<Rightarrow> simple_input nm lbl (PStr tag) kwargs)
         = simple_input nm lbl (PStr tag) kw"
    by simp
  show "descriptor_of tag nm lbl kw (simple_input nm lbl (PStr tag) kw)"
    using assms by (rule simple_input_ok)
qed

lemma scalar_clash:
  assumes "set (map fst kw) \<inter> {''name'', ''label'', ''type''} \<noteq> {}"
  shows "(case bind_keywords [''name'', ''label''] kw of Inl e \<Rightarrow> Inl e
          | Inr kwargs \<Rightarrow> simple_input nm lbl ty kwargs) = Inl TypeError"
proof (cases "bind_keywords [''name'', ''label''] kw")
  case (Inl e)
  then have "e = TypeError" by (auto simp: bind_keywords_def split: if_splits)
  with Inl show ?thesis by simp
next
  case (Inr kwargs)
  then have "kwargs = kw" by (auto simp: bind_keywords_def split: if_splits)
  moreover have "bind_keywords [''name'', ''label'', ''type''] kw = Inl TypeError"
    using assms by (intro bind_keywords_clash) simp
  ultimately show ?thesis using Inr by (simp add: simple_input_def)
qed

text \<open>
  C8, as amended. The extra keyword options of a call are a dictionary \<open>kw\<close> (distinct
  keys). When none of them is named name, label or type, each of the ten builders returns
  the dictionary of name, label and its fixed tag with the options merged in. When one of
  them is named name, label or type it does not override anything: the call raises
  \<^verbatim>\<open>TypeError\<close>, since the name is a parameter of the builder or of \<^verbatim>\<open>_simple_input\<close>.
\<close>

theorem scalar_inputs_merge_options:
  assumes "distinct (map fst kw)"
  shows "if set (map fst kw) \<inter> {''name'', ''label'', ''type''} = {} then
           descriptor_of ''STRING'' nm lbl kw (text_input nm lbl kw)
           \<and> descriptor_of ''DATE'' nm lbl kw (date_input nm lbl kw)
           \<and> descriptor_of ''DATETIME'' nm lbl kw (date_time_input nm lbl kw)
           \<and> descriptor_of ''TIME'' nm lbl kw (time_input nm lbl kw)
           \<and> descriptor_of ''BOOLEAN'' nm lbl kw (boolean_input nm lbl kw)
           \<and> descriptor_of ''TEXT'' nm lbl kw (rich_text_input nm lbl kw)
           \<and> descriptor_of ''INTEGER'' nm lbl kw (integer_input nm lbl kw)
           \<and> descriptor_of ''FLOAT'' nm lbl kw (float_input nm lbl kw)
           \<and> descriptor_of ''PASSWORD'' nm lbl kw (password_input nm lbl kw)
           \<and> descriptor_of ''FILE'' nm lbl kw (file_input nm lbl kw)
         else
           text_input nm lbl kw = Inl TypeError
           \<and> date_input nm lbl kw = Inl TypeError
           \<and> date_time_input nm lbl kw = Inl TypeError
           \<and> time_input nm lbl kw = Inl TypeError
           \<and> boolean_input nm lbl kw = Inl TypeError
           \<and> rich_text_input nm lbl kw = Inl TypeError
           \<and> integer_input nm lbl kw = Inl TypeError
           \<and> float_input nm lbl kw = Inl TypeError
           \<and> password_input nm lbl kw = Inl TypeError
           \<and> file_input nm lbl kw = Inl TypeError"
proof (cases "set (map fst kw) \<inter> {''name'', ''label'', ''type''} = {}")
  case True
  note ok = scalar_ok [OF assms True]
  show ?thesis
    unfolding text_input_def date_input_def date_time_input_def time_input_def
      boolean_input_def rich_text_input_def integer_input_def float_input_def
      password_input_def file_input_def
    by (simp only: True if_True ok simp_thms)
next
  case False
  note clash = scalar_clash [OF False]
  show ?thesis
    unfolding text_input_def date_input_def date_time_input_def time_input_def
      boolean_input_def rich_text_input_def integer_input_def float_input_def
      password_input_def file_input_def
    by (simp only: False if_False clash simp_thms)
qed

theorem scalar_inputs_merge_options_witness:
  "(\<exists>d. text_input (PStr ''x'') (PStr ''X'') [] = Inr (PDict d)
      \<and> map_of d ''name'' = Some (PStr ''x'') \<and> map_of d ''label'' = Some (PStr ''X'')
      \<and> map_of d ''type'' = Some (PStr ''STRING'') \<and> map_of d ''defaultValue'' = None)
   \<and> (\<exists>d. integer_input (PStr ''n'') (PStr ''N'') [(''defaultValue'', PInt 5)] = Inr (PDict d)
      \<and> map_of d ''name'' = Some (PStr ''n'') \<and> map_of d ''label'' = Some (PStr ''N'')
      \<and> map_of d ''type'' = Some (PStr ''INTEGER'') \<and> map_of d ''defaultValue'' = Some (PInt 5))
   \<and> password_input (PStr ''p'') (PStr ''P'') [(''label'', PStr ''Q'')] = Inl TypeError"
proof -
  have 1: "distinct (map fst ([] :: dict))" by simp
  have 2: "distinct (map fst [(''defaultValue'', PInt 5)])" by simp
  have 3: "distinct (map fst [(''label'', PStr ''Q'')])" by simp
  have a: "descriptor_of ''STRING'' (PStr ''x'') (PStr ''X'') []
      (text_input (PStr ''x'') (PStr ''X'') [])"
    using scalar_inputs_merge_options [OF 1, of "PStr ''x''" "PStr ''X''"] by simp
  have b: "descriptor_of ''INTEGER'' (PStr ''n'') (PStr ''N'') [(''defaultValue'', PInt 5)]
      (integer_input (PStr ''n'') (PStr ''N'') [(''defaultValue'', PInt 5)])"
    using scalar_inputs_merge_options [OF 2, of "PStr ''n''" "PStr ''N''"] by simp
  have c: "password_input (PStr ''p'') (PStr ''P'') [(''label'', PStr ''Q'')] = Inl TypeError"
    using scalar_inputs_merge_options [OF 3, of "PStr ''p''" "PStr ''P''"] by simp
  from a obtain d where d: "text_input (PStr ''x'') (PStr ''X'') [] = Inr (PDict d)"
      "map_of d = [''name'' \<mapsto> PStr ''x'', ''label'' \<mapsto> PStr ''X'',
         ''type'' \<mapsto> PStr ''STRING''] ++ map_of ([] :: dict)"
    unfolding descriptor_of_def by blast
  from b obtain d' where d': "integer_input (PStr ''n'') (PStr ''N'') [(''defaultValue'', PInt 5)]
        = Inr (PDict d')"
      "map_of d' = [''name'' \<mapsto> PStr ''n'', ''label'' \<mapsto> PStr ''N'',
         ''type'' \<mapsto> PStr ''INTEGER''] ++ map_of [(''defaultValue'', PInt 5)]"
    unfolding descriptor_of_def by blast
  have "\<exists>d. text_input (PStr ''x'') (PStr ''X'') [] = Inr (PDict d)
      \<and> map_of d ''name'' = Some (PStr ''x'') \<and> map_of d ''label'' = Some (PStr ''X'')
      \<and> map_of d ''type'' = Some (PStr ''STRING'') \<and> map_of d ''defaultValue'' = None"
    using d by (intro exI [of _ d]) simp
  moreover have "\<exists>d. integer_input (PStr ''n'') (PStr ''N'') [(''defaultValue'', PInt 5)]
        = Inr (PDict d)
      \<and> map_of d ''name'' = Some (PStr ''n'') \<and> map_of d ''label'' = Some (PStr ''N'')
      \<and> map_of d ''type'' = Some (PStr ''INTEGER'') \<and> map_of d ''defaultValue'' = Some (PInt 5)"
    using d' by (intro exI [of _ d']) (simp add: map_add_def)
  ultimately show ?thesis using c by blast
qed

text \<open>
  The claim as it stands fails: an extra option named type does not override the tag.
  \<^verbatim>\<open>text_input("x", "X", type="FOO")\<close> raises \<^verbatim>\<open>TypeError\<close> at the call of
  \<^verbatim>\<open>_simple_input\<close> and returns no dictionary.
\<close>

theorem scalar_input_override_counterexample:
  "text_input (PStr ''x'') (PStr ''X'') [(''type'', PStr ''FOO'')] = Inl TypeError
   \<and> \<not> descriptor_of ''STRING'' (PStr ''x'') (PStr ''X'') [(''type'', PStr ''FOO'')]
         (text_input (PStr ''x'') (PStr ''X'') [(''type'', PStr ''FOO'')])"
  by (simp add: text_input_def simple_input_def bind_keywords_def descriptor_of_def)

section \<open>Properties of the choice builders over a field list\<close>

lemma field_list_loop_ok:
  assumes "\<forall>types. fieldtype = Some types \<longrightarrow> length fieldelements \<le> length types"
  shows "todo = drop i fieldelements \<Longrightarrow>
     field_list_loop fieldelements fieldtype todo i entries =
       Inr (entries @ map (\<lambda>i. PDict [(''type'', (case fieldtype of None \<Rightarrow> PNone
                                                      | Some types \<Rightarrow> types ! i)),
                                        (''field'', fieldelements ! i)])
                        [i..<length fieldelements])"
proof (induction todo arbitrary: i entries)
  case Nil
  then have "length fieldelements \<le> i" by simp
  then show ?case by simp
next
  case (Cons x todo)
  from Cons.prems have i: "i < length fieldelements"
    by (metis drop_eq_Nil leI list.distinct(1))
  from Cons.prems have todo: "todo = drop (i + 1) fieldelements"
    by (metis Suc_eq_plus1 drop_Suc list.sel(3) tl_drop)
  have f: "getitem fieldelements i = Inr (fieldelements ! i)"
    using i by (simp add: getitem_def)
  have t: "(case fieldtype of Some types \<Rightarrow> getitem types i | None \<Rightarrow> Inr PNone)
      = Inr (case fieldtype of None \<Rightarrow> PNone | Some types \<Rightarrow> types ! i)"
    using assms i by (cases fieldtype) (auto simp: getitem_def)
  have u: "[i..<length fieldelements] = i # [i + 1..<length fieldelements]"
    using i by (simp add: upt_conv_Cons)
  show ?case
    by (simp only: field_list_loop.simps t f sum.case Cons.IH [OF todo] u) simp
qed

lemma field_list_loop_short:
  assumes "length types < length fieldelements"
  shows "todo = drop i fieldelements \<Longrightarrow> i \<le> length types \<Longrightarrow>
     field_list_loop fieldelements (Some types) todo i entries = Inl IndexError"
proof (induction todo arbitrary: i entries)
  case Nil
  then have "length fieldelements \<le> i" by simp
  with Nil.prems(2) assms show ?case by simp
next
  case (Cons x todo)
  from Cons.prems have i: "i < length fieldelements"
    by (metis drop_eq_Nil leI list.distinct(1))
  from Cons.prems have todo: "todo = drop (i + 1) fieldelements"
    by (metis Suc_eq_plus1 drop_Suc list.sel(3) tl_drop)
  show ?case
  proof (cases "i < length types")
    case True
    then have "i + 1 \<le> length types" by simp
    from Cons.IH [OF todo this] True i show ?thesis
      by (simp add: getitem_def)
  next
    case False
    then show ?thesis by (simp add: getitem_def)
  qed
qed

lemma field_list_binds:
  assumes "distinct (map fst kw)"
    and "set (map fst kw) \<inter> {''name'', ''label'', ''fieldelements'', ''fieldtype'', ''datatype''} = {}"
  shows "bind_keywords [''name'', ''label'', ''fieldelements'', ''fieldtype''] kw = Inr kw"
    and "bind_keywords [''name'', ''label'', ''datatype'', ''fieldelements'', ''fieldtype''] kw = Inr kw"
proof -
  have "set [''name'', ''label'', ''fieldelements'', ''fieldtype'']
      \<subseteq> {''name'', ''label'', ''fieldelements'', ''fieldtype'', ''datatype''}"
    by simp
  from disjoint_subset [OF assms(2) this] assms(1)
  show "bind_keywords [''name'', ''label'', ''fieldelements'', ''fieldtype''] kw = Inr kw"
    by (simp only: bind_keywords_def simp_thms if_True)
  have "set [''name'', ''label'', ''datatype'', ''fieldelements'', ''fieldtype'']
      \<subseteq> {''name'', ''label'', ''fieldelements'', ''fieldtype'', ''datatype''}"
    by simp
  from disjoint_subset [OF assms(2) this] assms(1)
  show "bind_keywords [''name'', ''label'', ''datatype'', ''fieldelements'', ''fieldtype''] kw = Inr kw"
    by (simp only: bind_keywords_def simp_thms if_True)
qed

lemma choice_with_field_list_input_ok:
  assumes "distinct (map fst kw)"
    and "set (map fst kw) \<inter> {''name'', ''label'', ''fieldelements'', ''fieldtype'', ''datatype'',
           ''fieldList''} = {}"
    and "\<forall>types. fieldtype = Some types \<longrightarrow> length fieldelements \<le> length types"
  shows "\<exists>d. choice_with_field_list_input nm lbl datatype fieldelements fieldtype kw = Inr (PDict d)
     \<and> map_of d ''fieldList''
         = Some (PDict [(''entries'', PList (paired_entries fieldelements fieldtype))])"
proof -
  let ?fixed = "[(''name'', nm), (''label'', lbl), (''type'', datatype),
      (''fieldList'', PDict [(''entries'', PList (paired_entries fieldelements fieldtype))])]"
  have "{''name'', ''label'', ''fieldelements'', ''fieldtype'', ''datatype''}
      \<subseteq> {''name'', ''label'', ''fieldelements'', ''fieldtype'', ''datatype'', ''fieldList''}"
    by simp
  note b = field_list_binds(2) [OF assms(1) disjoint_subset [OF assms(2) this]]
  have l: "field_list_loop fieldelements fieldtype fieldelements 0 []
      = Inr (paired_entries fieldelements fieldtype)"
    using field_list_loop_ok [OF assms(3), of fieldelements 0 "[]"]
    by (simp add: paired_entries_def)
  have "''fieldList''
      \<in> {''name'', ''label'', ''fieldelements'', ''fieldtype'', ''datatype'', ''fieldList''}"
    by simp
  from disjoint_not_member [OF assms(2) this] have "map_of kw ''fieldList'' = None"
    by (simp only: map_of_eq_None_iff set_map not_False_eq_True)
  then have "map_of (dict_update ?fixed kw) ''fieldList''
      = Some (PDict [(''entries'', PList (paired_entries fieldelements fieldtype))])"
    by (simp add: map_of_dict_update [OF assms(1)] map_add_def)
  then show ?thesis
    unfolding choice_with_field_list_input_def b l by simp
qed

text \<open>
  C6, as amended. For every call of one of the two builders whose \<open>fieldtype\<close> is absent
  or a list at least as long as \<open>fieldelements\<close>, and whose extra keyword options are
  named neither fieldList (which would replace the built value) nor after a parameter
  (\<^verbatim>\<open>TypeError\<close>), the result is a dictionary whose fieldList holds, under entries, one
  entry per index \<open>i\<close> of \<open>fieldelements\<close>: the type is \<open>fieldtype[i]\<close>, or \<open>None\<close> when
  \<open>fieldtype\<close> is absent, and the field is \<open>fieldelements[i]\<close>.
\<close>

theorem field_list_entries_paired:
  assumes "distinct (map fst kw)"
    and "set (map fst kw) \<inter> {''name'', ''label'', ''fieldelements'', ''fieldtype'', ''datatype'',
           ''fieldList''} = {}"
    and "\<forall>types. fieldtype = Some types \<longrightarrow> length fieldelements \<le> length types"
  shows "(\<exists>d. single_choice_with_field_list_input nm lbl fieldelements fieldtype kw = Inr (PDict d)
            \<and> map_of d ''fieldList''
                = Some (PDict [(''entries'', PList (paired_entries fieldelements fieldtype))]))
       \<and> (\<exists>d. multiple_choice_with_field_list_input nm lbl fieldelements fieldtype kw = Inr (PDict d)
            \<and> map_of d ''fieldList''
                = Some (PDict [(''entries'', PList (paired_entries fieldelements fieldtype))]))"
proof -
  have "{''name'', ''label'', ''fieldelements'', ''fieldtype'', ''datatype''}
      \<subseteq> {''name'', ''label'', ''fieldelements'', ''fieldtype'', ''datatype'', ''fieldList''}"
    by simp
  from field_list_binds(1) [OF assms(1) disjoint_subset [OF assms(2) this]] show ?thesis
    unfolding single_choice_with_field_list_input_def multiple_choice_with_field_list_input_def
    using choice_with_field_list_input_ok [OF assms] by simp
qed

theorem field_list_entries_paired_witness:
  "(\<exists>d. single_choice_with_field_list_input (PStr ''c'') (PStr ''C'') [PStr ''a'', PStr ''b'']
          (Some [PStr ''T1'', PStr ''T2'']) [] = Inr (PDict d)
      \<and> map_of d ''fieldList'' = Some (PDict [(''entries'', PList
            [PDict [(''type'', PStr ''T1''), (''field'', PStr ''a'')],
             PDict [(''type'', PStr ''T2''), (''field'', PStr ''b'')]])]))
   \<and> (\<exists>d. single_choice_with_field_list_input (PStr ''c'') (PStr ''C'') [PStr ''a'', PStr ''b'']
          None [] = Inr (PDict d)
      \<and> map_of d ''fieldList'' = Some (PDict [(''entries'', PList
            [PDict [(''type'', PNone), (''field'', PStr ''a'')],
             PDict [(''type'', PNone), (''field'', PStr ''b'')]])]))"
proof -
  have u: "[0..<length [PStr ''a'', PStr ''b'']] = [0, 1]"
    by (simp add: upt_rec)
  have 1: "distinct (map fst ([] :: dict))" by simp
  have 2: "set (map fst ([] :: dict)) \<inter> {''name'', ''label'', ''fieldelements'', ''fieldtype'',
      ''datatype'', ''fieldList''} = {}" by simp
  have 3: "\<forall>types. Some [PStr ''T1'', PStr ''T2''] = Some types
      \<longrightarrow> length [PStr ''a'', PStr ''b''] \<le> length types" by simp
  have 4: "\<forall>types. (None :: pyval list option) = Some types
      \<longrightarrow> length [PStr ''a'', PStr ''b''] \<le> length types" by simp
  show ?thesis
    using field_list_entries_paired [OF 1 2 3, of "PStr ''c''" "PStr ''C''"]
      field_list_entries_paired [OF 1 2 4, of "PStr ''c''" "PStr ''C''"]
    by (simp add: paired_entries_def u)
qed

text \<open>
  The claim as it stands fails for a call with an extra option named fieldList: the option
  is merged last and replaces the entries.
  \<^verbatim>\<open>single_choice_with_field_list_input("c", "C", ["a"], fieldtype=["T1"], fieldList=None)\<close>
  returns a dictionary whose fieldList is \<open>None\<close>.
\<close>

theorem field_list_entries_counterexample:
  "single_choice_with_field_list_input (PStr ''c'') (PStr ''C'') [PStr ''a''] (Some [PStr ''T1''])
     [(''fieldList'', PNone)]
   = Inr (PDict [(''name'', PStr ''c''), (''label'', PStr ''C''), (''type'', PStr ''SINGLE_CHOICE''),
        (''fieldList'', PNone)])"
  by (simp add: single_choice_with_field_list_input_def choice_with_field_list_input_def
      bind_keywords_def getitem_def)

text \<open>
  C7, as amended. For every call of one of the two builders whose \<open>fieldtype\<close> is a list
  strictly shorter than \<open>fieldelements\<close>, and whose extra keyword options are not named
  after a parameter of the builder or of \<^verbatim>\<open>_choice_with_field_list_input\<close>, the call
  raises \<^verbatim>\<open>IndexError\<close>; no dictionary with fewer entries is returned.
\<close>

theorem field_list_short_fieldtype_raises:
  assumes "distinct (map fst kw)"
    and "set (map fst kw) \<inter> {''name'', ''label'', ''fieldelements'', ''fieldtype'', ''datatype''} = {}"
    and "length types < length fieldelements"
  shows "single_choice_with_field_list_input nm lbl fieldelements (Some types) kw = Inl IndexError
       \<and> multiple_choice_with_field_list_input nm lbl fieldelements (Some types) kw = Inl IndexError"
proof -
  have "field_list_loop fieldelements (Some types) fieldelements 0 [] = Inl IndexError"
    using field_list_loop_short [OF assms(3), of fieldelements 0 "[]"] by simp
  then show ?thesis
    unfolding single_choice_with_field_list_input_def multiple_choice_with_field_list_input_def
      choice_with_field_list_input_def
    by (simp add: field_list_binds [OF assms(1,2)])
qed

theorem field_list_short_fieldtype_raises_witness:
  "single_choice_with_field_list_input (PStr ''c'') (PStr ''C'') [PStr ''a'', PStr ''b'']
     (Some [PStr ''T1'']) [(''defaultValue'', PStr ''a'')] = Inl IndexError
   \<and> multiple_choice_with_field_list_input (PStr ''c'') (PStr ''C'') [PStr ''a'', PStr ''b'']
     (Some []) [] = Inl IndexError"
proof -
  have 1: "distinct (map fst [(''defaultValue'', PStr ''a'')])" by simp
  have 2: "set (map fst [(''defaultValue'', PStr ''a'')])
      \<inter> {''name'', ''label'', ''fieldelements'', ''fieldtype'', ''datatype''} = {}" by simp
  have 3: "length [PStr ''T1''] < length [PStr ''a'', PStr ''b'']" by simp
  have 4: "distinct (map fst ([] :: dict))" by simp
  have 5: "set (map fst ([] :: dict))
      \<inter> {''name'', ''label'', ''fieldelements'', ''fieldtype'', ''datatype''} = {}" by simp
  have 6: "length ([] :: pyval list) < length [PStr ''a'', PStr ''b'']" by simp
  show ?thesis
    using field_list_short_fieldtype_raises [OF 1 2 3, of "PStr ''c''" "PStr ''C''"]
      field_list_short_fieldtype_raises [OF 4 5 6, of "PStr ''c''" "PStr ''C''"]
    by simp
qed

text \<open>
  The claim as it stands fails for a call with an extra option named datatype: the inner
  call gets \<^verbatim>\<open>datatype\<close> twice and raises \<^verbatim>\<open>TypeError\<close> before the loop runs.
\<close>

theorem field_list_short_fieldtype_counterexample:
  "single_choice_with_field_list_input (PStr ''c'') (PStr ''C'') [PStr ''a'', PStr ''b'']
     (Some [PStr ''T1'']) [(''datatype'', PStr ''X'')] = Inl TypeError"
  by (simp add: single_choice_with_field_list_input_def choice_with_field_list_input_def
      bind_keywords_def)

section \<open>Properties of the choice builders over a value map\<close>

lemma call_choice_with_value_map_input_more:
  "call_choice_with_value_map_input (a1 # a2 # a3 # a4 # a5 # a6 # a7 # a8 # rest) = Inl TypeError"
  by simp

text \<open>Without extra keyword options the two builders return what the claim describes.\<close>

lemma value_map_input_without_options:
  "single_choice_with_value_map_input nm lbl table filtered reference fixed_choice_customer_field []
   = Inr (PDict [(''name'', nm), (''label'', lbl), (''type'', PStr ''SINGLE_CHOICE''),
       (''valueMap'', PDict [(''filter'', default_None filtered),
          (''reference'', default_None reference), (''table'', default_None table),
          (''fixedChoiceCustomField'', default_None fixed_choice_customer_field)])])"
  "multiple_choice_with_value_map_input nm lbl table filtered reference fixed_choice_customer_field []
   = Inr (PDict [(''name'', nm), (''label'', lbl), (''type'', PStr ''MULTIPLE_CHOICE''),
       (''valueMap'', PDict [(''filter'', default_None filtered),
          (''reference'', default_None reference), (''table'', default_None table),
          (''fixedChoiceCustomField'', default_None fixed_choice_customer_field)])])"
  by (simp_all add: single_choice_with_value_map_input_def
      multiple_choice_with_value_map_input_def choice_with_value_map_input_def bind_keywords_def)

text \<open>With any extra keyword option at all, they raise.\<close>

lemma value_map_input_options_raise:
  assumes "kw \<noteq> []"
  shows "single_choice_with_value_map_input nm lbl table filtered reference
           fixed_choice_customer_field kw = Inl TypeError"
    and "multiple_choice_with_value_map_input nm lbl table filtered reference
           fixed_choice_customer_field kw = Inl TypeError"
proof -
  obtain p kw' where kw: "kw = p # kw'" using assms by (cases kw) auto
  show "single_choice_with_value_map_input nm lbl table filtered reference
           fixed_choice_customer_field kw = Inl TypeError"
    by (simp add: single_choice_with_value_map_input_def bind_keywords_def kw
        del: call_choice_with_value_map_input.simps
        add: call_choice_with_value_map_input_more)
  show "multiple_choice_with_value_map_input nm lbl table filtered reference
           fixed_choice_customer_field kw = Inl TypeError"
    by (simp add: multiple_choice_with_value_map_input_def bind_keywords_def kw
        del: call_choice_with_value_map_input.simps
        add: call_choice_with_value_map_input_more)
qed

text \<open>
  C5: the code does not do what the claim says. An extra keyword option is never merged
  into the result. \<^verbatim>\<open>single_choice_with_value_map_input("c", "C", defaultValue="a")\<close>
  passes the key \<^verbatim>\<open>"defaultValue"\<close> as an eighth positional argument to
  \<^verbatim>\<open>_choice_with_value_map_input\<close>, which takes seven, and raises \<^verbatim>\<open>TypeError\<close>; so does
  the builder for a multiple choice.
\<close>

theorem value_map_input_extra_option_raises:
  "single_choice_with_value_map_input (PStr ''c'') (PStr ''C'') None None None None
     [(''defaultValue'', PStr ''a'')] = Inl TypeError
   \<and> multiple_choice_with_value_map_input (PStr ''c'') (PStr ''C'') None None None None
     [(''defaultValue'', PStr ''a'')] = Inl TypeError"
  by (simp add: single_choice_with_value_map_input_def multiple_choice_with_value_map_input_def
      bind_keywords_def)

section \<open>Properties of to_dict\<close>

text \<open>
  C4. For every step and every route identifier, \<open>to_dict\<close> returns a dictionary with
  exactly the five keys hidden, name, input, process and output; hidden is the step's
  hidden flag, name its name, input and output wrap the step's input and output lists
  under the one key parameters, process holds the asynchronous flag and the route that was
  given. The result is determined by these six values alone: two steps that agree on the
  five fields (whatever their actions) give equal dictionaries for equal routes, so two
  calls with the same route yield structurally equal output.
\<close>

theorem to_dict_shape:
  "is_dict (to_dict self route_id)
   \<and> distinct (keys (to_dict self route_id))
   \<and> set (keys (to_dict self route_id)) = {''hidden'', ''name'', ''input'', ''process'', ''output''}
   \<and> lookup (to_dict self route_id) ''hidden'' = Some (PBool (hidden self))
   \<and> lookup (to_dict self route_id) ''name'' = Some (name self)
   \<and> lookup (to_dict self route_id) ''input'' = Some (PDict [(''parameters'', PList (input_params self))])
   \<and> lookup (to_dict self route_id) ''output'' = Some (PDict [(''parameters'', PList (output_params self))])
   \<and> (\<exists>process. lookup (to_dict self route_id) ''process'' = Some process
        \<and> set (keys process) = {''asynchronous'', ''route''}
        \<and> lookup process ''route'' = Some route_id
        \<and> lookup process ''asynchronous'' = Some (PBool (async self)))
   \<and> (\<forall>self' :: ('t, 'w) Step.
        hidden self' = hidden self \<and> name self' = name self \<and> input_params self' = input_params self
        \<and> output_params self' = output_params self \<and> async self' = async self
        \<longrightarrow> to_dict self' route_id = to_dict self route_id)"
  by (auto simp: to_dict_def)

theorem to_dict_shape_witness:
  "to_dict \<lparr>action = (\<lambda>s :: unit. (Raised StepExecutionException :: nat outcome, s)),
      name = PStr ''load'', hidden = False, input_params = [PStr ''a''], output_params = [],
      async = True\<rparr> (PInt 7)
   = to_dict \<lparr>action = (\<lambda>s :: unit. (Returned (0 :: nat), s)), name = PStr ''load'',
      hidden = False, input_params = [PStr ''a''], output_params = [], async = True\<rparr> (PInt 7)"
proof -
  let ?self = "\<lparr>action = (\<lambda>s :: unit. (Returned (0 :: nat), s)), name = PStr ''load'',
      hidden = False, input_params = [PStr ''a''], output_params = [], async = True\<rparr>"
  let ?self' = "\<lparr>action = (\<lambda>s :: unit. (Raised StepExecutionException :: nat outcome, s)),
      name = PStr ''load'', hidden = False, input_params = [PStr ''a''], output_params = [],
      async = True\<rparr>"
  have "hidden ?self' = hidden ?self \<and> name ?self' = name ?self
      \<and> input_params ?self' = input_params ?self \<and> output_params ?self' = output_params ?self
      \<and> async ?self' = async ?self
      \<longrightarrow> to_dict ?self' (PInt 7) = to_dict ?self (PInt 7)"
    using to_dict_shape [of ?self "PInt 7"] by blast
  then show ?thesis by simp
qed

section \<open>The calls and the handler\<close>

lemma format_exc_nonempty: "format_exc e \<noteq> []"
  by (simp add: format_exc_def)

lemma call_check_user_secret_eq:
  "check_user_secret flow_run s = (r, s1)
   \<Longrightarrow> call_check_user_secret flow_run (s, evs) = (r, (s1, evs @ [CheckUserSecret]))"
  by (simp add: call_check_user_secret_def)

lemma call_action_eq:
  "action self s = (r, s1) \<Longrightarrow> call_action self (s, evs) = (r, (s1, evs @ [Action]))"
  by (simp add: call_action_def)

lemma call_update_status_eq:
  "update_status flow_run st s = (r, s1)
   \<Longrightarrow> call_update_status flow_run st (s, evs) = (r, (s1, evs @ [UpdateStatus st]))"
  by (simp add: call_update_status_def)

lemma call_log_eq:
  "log flow_run text s = (r, s1)
   \<Longrightarrow> call_log flow_run text (s, evs) = (r, (s1, evs @ [Log text]))"
  by (simp add: call_log_def)

text \<open>The handler when its own two calls on the run return normally.\<close>

lemma except_Exception_handles:
  assumes "is_Exception e"
    and "log flow_run (format_exc e) s = (None, s1)"
    and "update_status flow_run FAILED s1 = (None, s2)"
  shows "except_Exception self flow_run e (s, evs)
     = (Raised StepExecutionException,
        (s2,
         evs @ [Log (format_exc e), UpdateStatus FAILED,
                LoggerInfo ''Failed running step %s'' (name self)]))"
  unfolding except_Exception_def
  by (simp add: assms(1) call_log_eq [OF assms(2)] call_update_status_eq [OF assms(3)]
      logger_info_def)

text \<open>Whatever the run does, the handler raises, and it neither calls the action nor
  starts a thread.\<close>

lemma except_Exception_raises: "\<exists>e' w'. except_Exception self flow_run e w = (Raised e', w')"
  by (auto simp: except_Exception_def split: prod.splits option.splits)

lemma except_Exception_events:
  "\<exists>evs'. snd (snd (except_Exception self flow_run e (s, evs))) = evs @ evs'
      \<and> Action \<notin> set evs' \<and> ThreadStart \<notin> set evs'"
  by (auto simp: except_Exception_def call_log_def call_update_status_def logger_info_def
      split: prod.splits option.splits)

text \<open>The ways through \<open>execute\<close>, each with the whole result.\<close>

lemma execute_sync_done:
  assumes "\<not> async self"
    and "check_user_secret flow_run s = (None, s1)"
    and "action self s1 = (Returned v, s2)"
    and "update_status flow_run DONE s2 = (None, s3)"
  shows "execute self flow_run (s, []) =
     (Returned (Some v),
      (s3, [CheckUserSecret, LoggerInfo ''Starting to run step %s synchronously'' (name self),
            Action, UpdateStatus DONE, LoggerInfo ''Done running step %s'' (name self)]))"
  unfolding execute_def execute_inner_def
  by (simp add: assms(1) call_check_user_secret_eq [OF assms(2)] logger_info_def
      call_action_eq [OF assms(3)] call_update_status_eq [OF assms(4)])

lemma execute_sync_action_raises:
  assumes "\<not> async self"
    and "check_user_secret flow_run s = (None, s1)"
    and "action self s1 = (Raised e, s2)"
    and "is_Exception e"
    and "log flow_run (format_exc e) s2 = (None, s3)"
    and "update_status flow_run FAILED s3 = (None, s4)"
    and "log flow_run (format_exc StepExecutionException) s4 = (None, s5)"
    and "update_status flow_run FAILED s5 = (None, s6)"
  shows "execute self flow_run (s, []) =
     (Raised StepExecutionException,
      (s6,
       [CheckUserSecret, LoggerInfo ''Starting to run step %s synchronously'' (name self),
        Action,
        Log (format_exc e), UpdateStatus FAILED,
        LoggerInfo ''Failed running step %s'' (name self),
        Log (format_exc StepExecutionException), UpdateStatus FAILED,
        LoggerInfo ''Failed running step %s'' (name self)]))"
proof -
  have inner: "execute_inner self flow_run
      (s1, [CheckUserSecret, LoggerInfo ''Starting to run step %s synchronously'' (name self)])
    = (Raised StepExecutionException,
       (s4,
        [CheckUserSecret, LoggerInfo ''Starting to run step %s synchronously'' (name self),
         Action, Log (format_exc e), UpdateStatus FAILED,
         LoggerInfo ''Failed running step %s'' (name self)]))"
    unfolding execute_inner_def
    by (simp add: call_action_eq [OF assms(3)]
        except_Exception_handles [OF assms(4) assms(5) assms(6)])
  have outer: "is_Exception StepExecutionException" by simp
  show ?thesis
    unfolding execute_def
    by (simp add: assms(1) call_check_user_secret_eq [OF assms(2)] logger_info_def
        inner [unfolded logger_info_def] except_Exception_handles [OF outer assms(7) assms(8)])
qed

lemma execute_sync_done_update_raises:
  assumes "\<not> async self"
    and "check_user_secret flow_run s = (None, s1)"
    and "action self s1 = (Returned v, s2)"
    and "update_status flow_run DONE s2 = (Some e, s3)"
    and "is_Exception e"
    and "log flow_run (format_exc e) s3 = (None, s4)"
    and "update_status flow_run FAILED s4 = (None, s5)"
    and "log flow_run (format_exc StepExecutionException) s5 = (None, s6)"
    and "update_status flow_run FAILED s6 = (None, s7)"
  shows "execute self flow_run (s, []) =
     (Raised StepExecutionException,
      (s7,
       [CheckUserSecret, LoggerInfo ''Starting to run step %s synchronously'' (name self),
        Action, UpdateStatus DONE,
        Log (format_exc e), UpdateStatus FAILED,
        LoggerInfo ''Failed running step %s'' (name self),
        Log (format_exc StepExecutionException), UpdateStatus FAILED,
        LoggerInfo ''Failed running step %s'' (name self)]))"
proof -
  have inner: "execute_inner self flow_run
      (s1, [CheckUserSecret, LoggerInfo ''Starting to run step %s synchronously'' (name self)])
    = (Raised StepExecutionException,
       (s5,
        [CheckUserSecret, LoggerInfo ''Starting to run step %s synchronously'' (name self),
         Action, UpdateStatus DONE, Log (format_exc e), UpdateStatus FAILED,
         LoggerInfo ''Failed running step %s'' (name self)]))"
    unfolding execute_inner_def
    by (simp add: call_action_eq [OF assms(3)] call_update_status_eq [OF assms(4)]
        except_Exception_handles [OF assms(5) assms(6) assms(7)])
  have outer: "is_Exception StepExecutionException" by simp
  show ?thesis
    unfolding execute_def
    by (simp add: assms(1) call_check_user_secret_eq [OF assms(2)] logger_info_def
        inner [unfolded logger_info_def] except_Exception_handles [OF outer assms(8) assms(9)])
qed

lemma execute_sync_done_update_raises_never_returns:
  assumes "\<not> async self"
    and "check_user_secret flow_run s = (None, s1)"
    and "action self s1 = (Returned v, s2)"
    and "update_status flow_run DONE s2 = (Some e, s3)"
  shows "\<exists>e'. fst (execute self flow_run (s, [])) = Raised e'"
proof -
  let ?w1 = "(s1, [CheckUserSecret, LoggerInfo ''Starting to run step %s synchronously'' (name self)])"
  let ?w2 = "(s3, [CheckUserSecret, LoggerInfo ''Starting to run step %s synchronously'' (name self),
      Action, UpdateStatus DONE])"
  have inner: "execute_inner self flow_run ?w1 = except_Exception self flow_run e ?w2"
    unfolding execute_inner_def
    by (simp add: call_action_eq [OF assms(3)] call_update_status_eq [OF assms(4)])
  obtain e1 w3 where r1: "(except_Exception self flow_run e ?w2 :: 'b outcome \<times> 'a world)
      = (Raised e1, w3)"
    using except_Exception_raises by blast
  obtain e2 w4 where r2: "(except_Exception self flow_run e1 w3 :: 'b option outcome \<times> 'a world)
      = (Raised e2, w4)"
    using except_Exception_raises by blast
  have "execute self flow_run (s, []) = (Raised e2, w4)"
    unfolding execute_def
    by (simp add: assms(1) call_check_user_secret_eq [OF assms(2)] logger_info_def
        inner [unfolded logger_info_def] r1 r2)
  then show ?thesis by simp
qed

lemma execute_check_raises:
  assumes "check_user_secret flow_run s = (Some e, s1)"
  shows "execute self flow_run (s, []) = except_Exception self flow_run e (s1, [CheckUserSecret])"
  unfolding execute_def
  by (simp add: call_check_user_secret_eq [OF assms])

section \<open>Properties of Step.execute\<close>

text \<open>
  C2, as amended. For every non-async step, if \<open>check_user_secret\<close> returns normally, the
  action invoked with the run context returns the value \<open>v\<close>, and the call
  \<open>update_status(DONE)\<close> that follows returns normally, then \<open>execute\<close> returns \<open>v\<close>,
  the run is left as that call left it, and \<open>DONE\<close> is the one status the run was given.
\<close>

theorem execute_returns_action_value:
  assumes "\<not> async self"
    and "check_user_secret flow_run s = (None, s1)"
    and "action self s1 = (Returned v, s2)"
    and "update_status flow_run DONE s2 = (None, s3)"
  shows "fst (execute self flow_run (s, [])) = Returned (Some v)
       \<and> fst (snd (execute self flow_run (s, []))) = s3
       \<and> status_updates (snd (snd (execute self flow_run (s, [])))) = [DONE]"
  by (simp add: execute_sync_done [OF assms])

theorem execute_returns_action_value_witness:
  "fst (execute (step_of (\<lambda>s. (Returned 5, s)) False) memory_run (fresh, [])) = Returned (Some 5)
   \<and> fst (snd (execute (step_of (\<lambda>s. (Returned 5, s)) False) memory_run (fresh, [])))
       = fresh\<lparr>status := Some DONE\<rparr>
   \<and> status_updates (snd (snd (execute (step_of (\<lambda>s. (Returned 5, s)) False) memory_run
         (fresh, [])))) = [DONE]"
proof -
  have 1: "\<not> async (step_of (\<lambda>s. (Returned 5, s)) False)"
    by (simp add: step_of_def)
  have 2: "check_user_secret memory_run fresh = (None, fresh)"
    by (simp add: memory_run_def fresh_def)
  have 3: "action (step_of (\<lambda>s. (Returned 5, s)) False) fresh = (Returned 5, fresh)"
    by (simp add: step_of_def)
  have 4: "update_status memory_run DONE fresh = (None, fresh\<lparr>status := Some DONE\<rparr>)"
    by (simp add: memory_run_def)
  show ?thesis
    using execute_returns_action_value [OF 1 2 3 4] .
qed

text \<open>
  The claim as it stands fails when \<open>update_status(DONE)\<close> raises: the check passes and
  the action returns 5, yet \<open>execute\<close> raises and returns nothing.
\<close>

theorem execute_returns_action_value_counterexample:
  "check_user_secret offline_run fresh = (None, fresh)
   \<and> action (step_of (\<lambda>s. (Returned 5, s)) False) fresh = (Returned 5, fresh)
   \<and> execute (step_of (\<lambda>s. (Returned 5, s)) False) offline_run (fresh, [])
     = (Raised (OtherException ''ConnectionError'' ''log''),
        (fresh,
         [CheckUserSecret, LoggerInfo ''Starting to run step %s synchronously'' (PStr ''load''),
          Action, UpdateStatus DONE,
          Log (format_exc (OtherException ''ConnectionError'' ''status'')),
          Log (format_exc (OtherException ''ConnectionError'' ''log''))]))"
  by (simp add: execute_def execute_inner_def except_Exception_def call_check_user_secret_def
      call_action_def call_update_status_def call_log_def logger_info_def offline_run_def
      step_of_def)

text \<open>
  C1, as amended. For every non-async step, if \<open>check_user_secret\<close> returns normally, the
  action invoked with the run context raises an instance of \<^verbatim>\<open>Exception\<close>, and the calls
  of \<open>log\<close> and \<open>update_status(FAILED)\<close> that the two handlers then make on the run
  return normally, then \<open>execute\<close> raises \<^verbatim>\<open>StepExecutionException\<close>, the run is left as
  the last of these calls left it, the last status given to the run is \<open>FAILED\<close>, and a
  non-empty trace string was logged to the run. Nothing is asked of the run in states
  that are not reached.
\<close>

theorem execute_action_raises:
  assumes "\<not> async self"
    and "check_user_secret flow_run s = (None, s1)"
    and "action self s1 = (Raised e, s2)"
    and "is_Exception e"
    and "log flow_run (format_exc e) s2 = (None, s3)"
    and "update_status flow_run FAILED s3 = (None, s4)"
    and "log flow_run (format_exc StepExecutionException) s4 = (None, s5)"
    and "update_status flow_run FAILED s5 = (None, s6)"
  shows "fst (execute self flow_run (s, [])) = Raised StepExecutionException
       \<and> fst (snd (execute self flow_run (s, []))) = s6
       \<and> status_updates (snd (snd (execute self flow_run (s, [])))) \<noteq> []
       \<and> last (status_updates (snd (snd (execute self flow_run (s, []))))) = FAILED
       \<and> (\<exists>text \<in> set (logged_texts (snd (snd (execute self flow_run (s, []))))). text \<noteq> [])"
  by (simp add: execute_sync_action_raises [OF assms] format_exc_nonempty)

theorem execute_action_raises_witness:
  "fst (execute (step_of (\<lambda>s. (Raised (OtherException ''ValueError'' ''bad''), s)) False)
          memory_run (fresh, [])) = Raised StepExecutionException
   \<and> fst (snd (execute (step_of (\<lambda>s. (Raised (OtherException ''ValueError'' ''bad''), s)) False)
          memory_run (fresh, [])))
       = fresh\<lparr>status := Some FAILED,
           log_lines := [format_exc (OtherException ''ValueError'' ''bad''),
                         format_exc StepExecutionException]\<rparr>
   \<and> last (status_updates (snd (snd (execute
          (step_of (\<lambda>s. (Raised (OtherException ''ValueError'' ''bad''), s)) False)
          memory_run (fresh, [])))))
       = FAILED
   \<and> (\<exists>text \<in> set (logged_texts (snd (snd (execute
          (step_of (\<lambda>s. (Raised (OtherException ''ValueError'' ''bad''), s)) False)
          memory_run (fresh, []))))). text \<noteq> [])"
proof -
  let ?e = "OtherException ''ValueError'' ''bad''"
  let ?step = "step_of (\<lambda>s. (Raised ?e, s)) False"
  let ?s3 = "fresh\<lparr>log_lines := [format_exc ?e]\<rparr>"
  let ?s4 = "fresh\<lparr>status := Some FAILED, log_lines := [format_exc ?e]\<rparr>"
  let ?s5 = "fresh\<lparr>status := Some FAILED,
      log_lines := [format_exc ?e, format_exc StepExecutionException]\<rparr>"
  have 1: "\<not> async ?step"
    by (simp add: step_of_def)
  have 2: "check_user_secret memory_run fresh = (None, fresh)"
    by (simp add: memory_run_def fresh_def)
  have 3: "action ?step fresh = (Raised ?e, fresh)"
    by (simp add: step_of_def)
  have 4: "is_Exception ?e"
    by simp
  have 5: "log memory_run (format_exc ?e) fresh = (None, ?s3)"
    by (simp add: memory_run_def fresh_def)
  have 6: "update_status memory_run FAILED ?s3 = (None, ?s4)"
    by (simp add: memory_run_def fresh_def)
  have 7: "log memory_run (format_exc StepExecutionException) ?s4 = (None, ?s5)"
    by (simp add: memory_run_def fresh_def)
  have 8: "update_status memory_run FAILED ?s5 = (None, ?s5)"
    by (simp add: memory_run_def fresh_def)
  show ?thesis
    using execute_action_raises [OF 1 2 3 4 5 6 7 8] by blast
qed

text \<open>
  The claim as it stands fails in two ways. An action that raises \<^verbatim>\<open>SystemExit\<close>, which
  is no instance of \<^verbatim>\<open>Exception\<close>, passes both handlers: \<open>execute\<close> raises it as it is
  and the run gets no status and no log. And when the run's \<open>log\<close> raises, that
  exception leaves \<open>execute\<close> and \<open>update_status\<close> is never called.
\<close>

theorem execute_action_raises_counterexample:
  "execute (step_of (\<lambda>s. (Raised (NonException ''SystemExit'' ''1''), s)) False) memory_run
      (fresh, [])
     = (Raised (NonException ''SystemExit'' ''1''),
        (fresh,
         [CheckUserSecret, LoggerInfo ''Starting to run step %s synchronously'' (PStr ''load''),
          Action]))
   \<and> execute (step_of (\<lambda>s. (Raised (OtherException ''ValueError'' ''bad''), s)) False)
        offline_run (fresh, [])
     = (Raised (OtherException ''ConnectionError'' ''log''),
        (fresh,
         [CheckUserSecret, LoggerInfo ''Starting to run step %s synchronously'' (PStr ''load''),
          Action,
          Log (format_exc (OtherException ''ValueError'' ''bad'')),
          Log (format_exc (OtherException ''ConnectionError'' ''log''))]))"
  by (simp add: execute_def execute_inner_def except_Exception_def call_check_user_secret_def
      call_action_def call_update_status_def call_log_def logger_info_def offline_run_def
      memory_run_def fresh_def step_of_def)

text \<open>
  C3, as amended. For every step, async or not, if \<open>check_user_secret\<close> raises, then
  \<open>execute\<close> never invokes the action: it neither calls it nor starts the thread that
  would. If moreover what the check raises is an instance of \<^verbatim>\<open>Exception\<close> and the
  handler's calls of \<open>log\<close> and \<open>update_status(FAILED)\<close> on the run return normally, then
  \<open>execute\<close> makes, after the check, exactly these calls: it logs the traceback to the
  run, gives the run the status \<open>FAILED\<close>, and raises an instance of
  \<^verbatim>\<open>StepExecutionException\<close> whose message is empty, whatever the class and the message
  of the original exception were.
\<close>

theorem execute_secret_check_raises:
  assumes "check_user_secret flow_run s = (Some e, s1)"
  shows "Action \<notin> set (snd (snd (execute self flow_run (s, []))))
       \<and> ThreadStart \<notin> set (snd (snd (execute self flow_run (s, []))))
       \<and> (is_Exception e \<and> log flow_run (format_exc e) s1 = (None, s2)
            \<and> update_status flow_run FAILED s2 = (None, s3)
          \<longrightarrow> execute self flow_run (s, [])
                = (Raised (StepExecutionException_msg []),
                   (s3, [CheckUserSecret, Log (format_exc e), UpdateStatus FAILED,
                         LoggerInfo ''Failed running step %s'' (name self)])))"
proof -
  note ex = execute_check_raises [OF assms, of self]
  have "\<exists>evs'. snd (snd (execute self flow_run (s, []))) = [CheckUserSecret] @ evs'
      \<and> Action \<notin> set evs' \<and> ThreadStart \<notin> set evs'"
    unfolding ex by (rule except_Exception_events)
  then have "Action \<notin> set (snd (snd (execute self flow_run (s, []))))
      \<and> ThreadStart \<notin> set (snd (snd (execute self flow_run (s, []))))"
    by auto
  moreover have "execute self flow_run (s, [])
      = (Raised (StepExecutionException_msg []),
         (s3, [CheckUserSecret, Log (format_exc e), UpdateStatus FAILED,
               LoggerInfo ''Failed running step %s'' (name self)]))"
    if "is_Exception e" and "log flow_run (format_exc e) s1 = (None, s2)"
      and "update_status flow_run FAILED s2 = (None, s3)"
    by (simp add: ex except_Exception_handles [OF that])
  ultimately show ?thesis by blast
qed

theorem execute_secret_check_raises_witness:
  "Action \<notin> set (snd (snd (execute (step_of (\<lambda>s. (Returned 5, s)) True) memory_run
       (fresh\<lparr>secret_ok := False\<rparr>, []))))
   \<and> ThreadStart \<notin> set (snd (snd (execute (step_of (\<lambda>s. (Returned 5, s)) True) memory_run
       (fresh\<lparr>secret_ok := False\<rparr>, []))))
   \<and> execute (step_of (\<lambda>s. (Returned 5, s)) True) memory_run (fresh\<lparr>secret_ok := False\<rparr>, [])
     = (Raised (StepExecutionException_msg []),
        (fresh\<lparr>secret_ok := False, status := Some FAILED,
           log_lines := [format_exc (OtherException ''Exception'' ''Secret not valid'')]\<rparr>,
         [CheckUserSecret, Log (format_exc (OtherException ''Exception'' ''Secret not valid'')),
          UpdateStatus FAILED, LoggerInfo ''Failed running step %s'' (PStr ''load'')]))"
proof -
  let ?e = "OtherException ''Exception'' ''Secret not valid''"
  let ?s1 = "fresh\<lparr>secret_ok := False\<rparr>"
  let ?s2 = "fresh\<lparr>secret_ok := False, log_lines := [format_exc ?e]\<rparr>"
  let ?s3 = "fresh\<lparr>secret_ok := False, status := Some FAILED, log_lines := [format_exc ?e]\<rparr>"
  have 1: "check_user_secret memory_run ?s1 = (Some ?e, ?s1)"
    by (simp add: memory_run_def)
  have 2: "is_Exception ?e"
    by simp
  have 3: "log memory_run (format_exc ?e) ?s1 = (None, ?s2)"
    by (simp add: memory_run_def fresh_def)
  have 4: "update_status memory_run FAILED ?s2 = (None, ?s3)"
    by (simp add: memory_run_def fresh_def)
  have 5: "name (step_of (\<lambda>s. (Returned 5, s)) True) = PStr ''load''"
    by (simp add: step_of_def)
  show ?thesis
    using execute_secret_check_raises [OF 1, of "step_of (\<lambda>s. (Returned 5, s)) True" ?s2 ?s3]
      2 3 4
    by (simp add: 5 fresh_def)
qed

text \<open>
  The claim as it stands fails in two ways. A check that is interrupted raises
  \<^verbatim>\<open>KeyboardInterrupt\<close>, which the handler does not catch: \<open>execute\<close> raises it as it is,
  with its type and message, and the run gets no log and no status. And when the secret
  is not valid but the run's \<open>log\<close> raises, that exception leaves \<open>execute\<close> and the
  status is never set.
\<close>

theorem execute_secret_check_raises_counterexample:
  "execute (step_of (\<lambda>s. (Returned 5, s)) False)
      (memory_run\<lparr>check_user_secret :=
         (\<lambda>s. (Some (NonException ''KeyboardInterrupt'' ''stop''), s))\<rparr>) (fresh, [])
     = (Raised (NonException ''KeyboardInterrupt'' ''stop''), (fresh, [CheckUserSecret]))
   \<and> execute (step_of (\<lambda>s. (Returned 5, s)) False)
      (memory_run\<lparr>log := (\<lambda>text s. (Some (OtherException ''ConnectionError'' ''log''), s))\<rparr>)
      (fresh\<lparr>secret_ok := False\<rparr>, [])
     = (Raised (OtherException ''ConnectionError'' ''log''),
        (fresh\<lparr>secret_ok := False\<rparr>,
         [CheckUserSecret, Log (format_exc (OtherException ''Exception'' ''Secret not valid''))]))"
  by (simp add: execute_def except_Exception_def call_check_user_secret_def call_log_def
      memory_run_def fresh_def)

text \<open>
  C9, as amended. For every non-async step whose \<open>check_user_secret\<close> returns normally
  and whose action raises an instance of \<^verbatim>\<open>Exception\<close>, if the calls of \<open>log\<close> and
  \<open>update_status(FAILED)\<close> that the two handlers make on the run return normally, then
  during \<open>execute\<close> Step itself calls each of the two exactly twice: the handler of
  \<^verbatim>\<open>_execute_inner\<close> with the traceback of the action's exception, and then the handler
  of \<open>execute\<close>, which catches the \<^verbatim>\<open>StepExecutionException\<close> raised by the first and
  logs the traceback of that one; after that \<^verbatim>\<open>StepExecutionException\<close> goes to the
  caller. (The calls counted are those of Step, not what the action may do to the run.)
\<close>

theorem execute_action_raises_handles_twice:
  assumes "\<not> async self"
    and "check_user_secret flow_run s = (None, s1)"
    and "action self s1 = (Raised e, s2)"
    and "is_Exception e"
    and "log flow_run (format_exc e) s2 = (None, s3)"
    and "update_status flow_run FAILED s3 = (None, s4)"
    and "log flow_run (format_exc StepExecutionException) s4 = (None, s5)"
    and "update_status flow_run FAILED s5 = (None, s6)"
  shows "execute self flow_run (s, [])
           = (Raised StepExecutionException,
              (s6,
               [CheckUserSecret,
                LoggerInfo ''Starting to run step %s synchronously'' (name self),
                Action,
                Log (format_exc e), UpdateStatus FAILED,
                LoggerInfo ''Failed running step %s'' (name self),
                Log (format_exc StepExecutionException), UpdateStatus FAILED,
                LoggerInfo ''Failed running step %s'' (name self)]))
       \<and> logged_texts (snd (snd (execute self flow_run (s, []))))
           = [format_exc e, format_exc StepExecutionException]
       \<and> status_updates (snd (snd (execute self flow_run (s, [])))) = [FAILED, FAILED]"
  by (simp add: execute_sync_action_raises [OF assms])

theorem execute_action_raises_handles_twice_witness:
  "logged_texts (snd (snd (execute
        (step_of (\<lambda>s. (Raised (OtherException ''KeyError'' ''id''), s)) False)
        memory_run (fresh, []))))
     = [format_exc (OtherException ''KeyError'' ''id''), format_exc StepExecutionException]
   \<and> status_updates (snd (snd (execute
        (step_of (\<lambda>s. (Raised (OtherException ''KeyError'' ''id''), s)) False)
        memory_run (fresh, [])))) = [FAILED, FAILED]
   \<and> fst (execute (step_of (\<lambda>s. (Raised (OtherException ''KeyError'' ''id''), s)) False)
        memory_run (fresh, [])) = Raised StepExecutionException"
proof -
  let ?e = "OtherException ''KeyError'' ''id''"
  let ?step = "step_of (\<lambda>s. (Raised ?e, s)) False"
  let ?s3 = "fresh\<lparr>log_lines := [format_exc ?e]\<rparr>"
  let ?s4 = "fresh\<lparr>status := Some FAILED, log_lines := [format_exc ?e]\<rparr>"
  let ?s5 = "fresh\<lparr>status := Some FAILED,
      log_lines := [format_exc ?e, format_exc StepExecutionException]\<rparr>"
  have 1: "\<not> async ?step"
    by (simp add: step_of_def)
  have 2: "check_user_secret memory_run fresh = (None, fresh)"
    by (simp add: memory_run_def fresh_def)
  have 3: "action ?step fresh = (Raised ?e, fresh)"
    by (simp add: step_of_def)
  have 4: "is_Exception ?e"
    by simp
  have 5: "log memory_run (format_exc ?e) fresh = (None, ?s3)"
    by (simp add: memory_run_def fresh_def)
  have 6: "update_status memory_run FAILED ?s3 = (None, ?s4)"
    by (simp add: memory_run_def fresh_def)
  have 7: "log memory_run (format_exc StepExecutionException) ?s4 = (None, ?s5)"
    by (simp add: memory_run_def fresh_def)
  have 8: "update_status memory_run FAILED ?s5 = (None, ?s5)"
    by (simp add: memory_run_def fresh_def)
  show ?thesis
    using execute_action_raises_handles_twice [OF 1 2 3 4 5 6 7 8] by simp
qed

text \<open>
  The claim as it stands fails in two ways. When the action raises \<^verbatim>\<open>KeyboardInterrupt\<close>
  neither handler runs: no call of \<open>log\<close> or \<open>update_status\<close> is made. When the run's
  \<open>log\<close> raises, \<open>log\<close> is called twice but \<open>update_status\<close> not at all, and what goes
  to the caller is the exception of \<open>log\<close>.
\<close>

theorem execute_action_raises_handles_twice_counterexample:
  "logged_texts (snd (snd (execute
        (step_of (\<lambda>s. (Raised (NonException ''KeyboardInterrupt'' ''stop''), s)) False)
        memory_run (fresh, [])))) = []
   \<and> status_updates (snd (snd (execute
        (step_of (\<lambda>s. (Raised (NonException ''KeyboardInterrupt'' ''stop''), s)) False)
        memory_run (fresh, [])))) = []
   \<and> fst (execute (step_of (\<lambda>s. (Raised (NonException ''KeyboardInterrupt'' ''stop''), s)) False)
        memory_run (fresh, [])) = Raised (NonException ''KeyboardInterrupt'' ''stop'')
   \<and> logged_texts (snd (snd (execute
        (step_of (\<lambda>s. (Raised (OtherException ''KeyError'' ''id''), s)) False)
        (memory_run\<lparr>log := (\<lambda>text s. (Some (OtherException ''ConnectionError'' ''log''), s))\<rparr>)
        (fresh, []))))
       = [format_exc (OtherException ''KeyError'' ''id''),
          format_exc (OtherException ''ConnectionError'' ''log'')]
   \<and> status_updates (snd (snd (execute
        (step_of (\<lambda>s. (Raised (OtherException ''KeyError'' ''id''), s)) False)
        (memory_run\<lparr>log := (\<lambda>text s. (Some (OtherException ''ConnectionError'' ''log''), s))\<rparr>)
        (fresh, [])))) = []
   \<and> fst (execute (step_of (\<lambda>s. (Raised (OtherException ''KeyError'' ''id''), s)) False)
        (memory_run\<lparr>log := (\<lambda>text s. (Some (OtherException ''ConnectionError'' ''log''), s))\<rparr>)
        (fresh, [])) = Raised (OtherException ''ConnectionError'' ''log'')"
  by (simp add: execute_def execute_inner_def except_Exception_def call_check_user_secret_def
      call_action_def call_update_status_def call_log_def logger_info_def
      memory_run_def fresh_def step_of_def)

text \<open>
  C10, as amended. For every non-async step whose \<open>check_user_secret\<close> returns normally
  and whose action returns normally, if the call \<open>update_status(DONE)\<close> that follows
  raises, then \<open>execute\<close> does not return the action's value: it raises. If moreover
  what that call raises is an instance of \<^verbatim>\<open>Exception\<close> and the calls of \<open>log\<close> and
  \<open>update_status(FAILED)\<close> that the two handlers then make on the run return normally,
  then the traceback is logged to the run, the last status given to the run is
  \<open>FAILED\<close>, and what \<open>execute\<close> raises is \<^verbatim>\<open>StepExecutionException\<close>, although the
  action succeeded.
\<close>

theorem execute_update_done_raises:
  assumes "\<not> async self"
    and "check_user_secret flow_run s = (None, s1)"
    and "action self s1 = (Returned v, s2)"
    and "update_status flow_run DONE s2 = (Some e, s3)"
  shows "(\<exists>e'. fst (execute self flow_run (s, [])) = Raised e')
       \<and> (is_Exception e
            \<and> log flow_run (format_exc e) s3 = (None, s4)
            \<and> update_status flow_run FAILED s4 = (None, s5)
            \<and> log flow_run (format_exc StepExecutionException) s5 = (None, s6)
            \<and> update_status flow_run FAILED s6 = (None, s7)
          \<longrightarrow> fst (execute self flow_run (s, [])) = Raised StepExecutionException
              \<and> fst (snd (execute self flow_run (s, []))) = s7
              \<and> logged_texts (snd (snd (execute self flow_run (s, []))))
                  = [format_exc e, format_exc StepExecutionException]
              \<and> status_updates (snd (snd (execute self flow_run (s, []))))
                  = [DONE, FAILED, FAILED])"
proof -
  have "fst (execute self flow_run (s, [])) = Raised StepExecutionException
      \<and> fst (snd (execute self flow_run (s, []))) = s7
      \<and> logged_texts (snd (snd (execute self flow_run (s, []))))
          = [format_exc e, format_exc StepExecutionException]
      \<and> status_updates (snd (snd (execute self flow_run (s, [])))) = [DONE, FAILED, FAILED]"
    if "is_Exception e"
      and "log flow_run (format_exc e) s3 = (None, s4)"
      and "update_status flow_run FAILED s4 = (None, s5)"
      and "log flow_run (format_exc StepExecutionException) s5 = (None, s6)"
      and "update_status flow_run FAILED s6 = (None, s7)"
    by (simp add: execute_sync_done_update_raises [OF assms that])
  with execute_sync_done_update_raises_never_returns [OF assms] show ?thesis
    by blast
qed

theorem execute_update_done_raises_witness:
  "fst (execute (step_of (\<lambda>s. (Returned 5, s)) False)
      (memory_run\<lparr>update_status := (\<lambda>st s.
         (if st = DONE then Some (OtherException ''ConnectionError'' ''status'') else None,
          s\<lparr>status := Some st\<rparr>))\<rparr>) (fresh, [])) = Raised StepExecutionException
   \<and> logged_texts (snd (snd (execute (step_of (\<lambda>s. (Returned 5, s)) False)
      (memory_run\<lparr>update_status := (\<lambda>st s.
         (if st = DONE then Some (OtherException ''ConnectionError'' ''status'') else None,
          s\<lparr>status := Some st\<rparr>))\<rparr>) (fresh, []))))
     = [format_exc (OtherException ''ConnectionError'' ''status''),
        format_exc StepExecutionException]
   \<and> status_updates (snd (snd (execute (step_of (\<lambda>s. (Returned 5, s)) False)
      (memory_run\<lparr>update_status := (\<lambda>st s.
         (if st = DONE then Some (OtherException ''ConnectionError'' ''status'') else None,
          s\<lparr>status := Some st\<rparr>))\<rparr>) (fresh, [])))) = [DONE, FAILED, FAILED]"
proof -
  let ?e = "OtherException ''ConnectionError'' ''status''"
  let ?run = "memory_run\<lparr>update_status := (\<lambda>st s.
         (if st = DONE then Some ?e else None, s\<lparr>status := Some st\<rparr>))\<rparr>"
  let ?step = "step_of (\<lambda>s. (Returned 5, s)) False"
  let ?s3 = "fresh\<lparr>status := Some DONE\<rparr>"
  let ?s4 = "fresh\<lparr>status := Some DONE, log_lines := [format_exc ?e]\<rparr>"
  let ?s5 = "fresh\<lparr>status := Some FAILED, log_lines := [format_exc ?e]\<rparr>"
  let ?s6 = "fresh\<lparr>status := Some FAILED,
      log_lines := [format_exc ?e, format_exc StepExecutionException]\<rparr>"
  have 1: "\<not> async ?step"
    by (simp add: step_of_def)
  have 2: "check_user_secret ?run fresh = (None, fresh)"
    by (simp add: memory_run_def fresh_def)
  have 3: "action ?step fresh = (Returned 5, fresh)"
    by (simp add: step_of_def)
  have 4: "update_status ?run DONE fresh = (Some ?e, ?s3)"
    by simp
  have 5: "is_Exception ?e"
    by simp
  have 6: "log ?run (format_exc ?e) ?s3 = (None, ?s4)"
    by (simp add: memory_run_def fresh_def)
  have 7: "update_status ?run FAILED ?s4 = (None, ?s5)"
    by (simp add: fresh_def)
  have 8: "log ?run (format_exc StepExecutionException) ?s5 = (None, ?s6)"
    by (simp add: memory_run_def fresh_def)
  have 9: "update_status ?run FAILED ?s6 = (None, ?s6)"
    by (simp add: fresh_def)
  show ?thesis
    using execute_update_done_raises [OF 1 2 3 4, of ?s4 ?s5 ?s6 ?s6] 5 6 7 8 9 by blast
qed

text \<open>
  The claim as it stands fails in two ways. When every \<open>update_status\<close> raises, as it
  does once the server is lost, the exception of \<open>update_status(FAILED)\<close> is what leaves
  \<open>execute\<close>, not \<^verbatim>\<open>StepExecutionException\<close>. And when \<open>update_status(DONE)\<close> raises
  \<^verbatim>\<open>KeyboardInterrupt\<close>, no handler runs: nothing is logged and \<open>FAILED\<close> is never set.
\<close>

theorem execute_update_done_raises_counterexample:
  "execute (step_of (\<lambda>s. (Returned 5, s)) False)
      (memory_run\<lparr>update_status :=
         (\<lambda>st s. (Some (OtherException ''ConnectionError'' ''status''), s))\<rparr>) (fresh, [])
     = (Raised (OtherException ''ConnectionError'' ''status''),
        (fresh\<lparr>log_lines := [format_exc (OtherException ''ConnectionError'' ''status''),
                              format_exc (OtherException ''ConnectionError'' ''status'')]\<rparr>,
         [CheckUserSecret, LoggerInfo ''Starting to run step %s synchronously'' (PStr ''load''),
          Action, UpdateStatus DONE,
          Log (format_exc (OtherException ''ConnectionError'' ''status'')), UpdateStatus FAILED,
          Log (format_exc (OtherException ''ConnectionError'' ''status'')), UpdateStatus FAILED]))
   \<and> execute (step_of (\<lambda>s. (Returned 5, s)) False)
      (memory_run\<lparr>update_status := (\<lambda>st s.
         (if st = DONE then Some (NonException ''KeyboardInterrupt'' ''stop'') else None, s))\<rparr>)
      (fresh, [])
     = (Raised (NonException ''KeyboardInterrupt'' ''stop''),
        (fresh,
         [CheckUserSecret, LoggerInfo ''Starting to run step %s synchronously'' (PStr ''load''),
          Action, UpdateStatus DONE]))"
  by (simp add: execute_def execute_inner_def except_Exception_def call_check_user_secret_def
      call_action_def call_update_status_def call_log_def logger_info_def
      memory_run_def fresh_def step_of_def)


end
